theory Spec2Isabelle
  imports Main "HOL-Library.AList" "HOL-Library.Char_ord" "HOL-Library.List_Lexorder"
begin

section \<open>Python values\<close>

text \<open>
  The values that rows, schemas, configuration and bookmarks hold: \<open>None\<close>, unbounded
  integers, strings, \<open>datetime\<close> objects (an instant, counted in microseconds), lists and
  dictionaries (item lists, read with \<open>map_of\<close>).
\<close>

datatype pyval =
    PNone
  | PInt int
  | PStr string
  | PTime int
  | PList "pyval list"
  | PDict "(string \<times> pyval) list"

type_synonym pydict = "(string \<times> pyval) list"

text \<open>Python truthiness, as \<open>if x:\<close> and \<open>not x\<close> test it.\<close>

fun truthy :: "pyval \<Rightarrow> bool" where
  "truthy PNone = False"
| "truthy (PInt i) = (i \<noteq> 0)"
| "truthy (PStr s) = (s \<noteq> [])"
| "truthy (PTime t) = True"
| "truthy (PList xs) = (xs \<noteq> [])"
| "truthy (PDict d) = (d \<noteq> [])"

text \<open>Truthiness of an \<open>Optional[str]\<close>, an \<open>Optional[List[str]]\<close> or an \<open>Optional[dict]\<close>.\<close>

fun truthy_opt :: "'a list option \<Rightarrow> bool" where
  "truthy_opt None = False"
| "truthy_opt (Some xs) = (xs \<noteq> [])"

datatype error =
    ValueError
  | FileExistsError
  | AttributeError
  | KeyError
  | TypeError
  | ZeroDivisionError
  | ParserError
  | MaxRecordsLimitException
  | InvalidStreamSortException

section \<open>The stream object\<close>

text \<open>An entry of a parsed Singer catalog (\<open>singer.CatalogEntry\<close>), with the fields \<open>apply_catalog\<close> reads.\<close>

record catalog_entry =
  entry_tap_stream_id :: string
  entry_key_properties :: "string list option"
  entry_replication_key :: "string option"
  entry_replication_method :: "string option"

type_synonym catalog = "catalog_entry list"

text \<open>
  The attributes of \<open>Stream\<close>. The private attributes \<open>_config\<close>, \<open>_replication_key\<close>, ... carry
  the prefix \<open>priv\<close>. The class attributes \<open>STATE_MSG_FREQUENCY\<close> and \<open>_MAX_RECORDS_LIMIT\<close>, the
  overridable property \<open>is_sorted\<close> and the abstract method \<open>get_records\<close> (the rows of a
  partition, a finite sequence) are fields a concrete stream fills in.
\<close>

record stream =
  name :: string
  priv_config :: pydict
  priv_tap_input_catalog :: "catalog option"
  forced_replication_method :: "string option"
  priv_replication_key :: "string option"
  priv_primary_keys :: "string list option"
  priv_schema_filepath :: "string option"
  priv_schema :: "pydict option"
  STATE_MSG_FREQUENCY :: int
  MAX_RECORDS_LIMIT :: "int option"
  is_sorted :: bool
  get_records :: "pydict option \<Rightarrow> pydict list"

definition REPLICATION_FULL_TABLE :: string where
  "REPLICATION_FULL_TABLE = ''FULL_TABLE''"

definition REPLICATION_INCREMENTAL :: string where
  "REPLICATION_INCREMENTAL = ''INCREMENTAL''"

definition REPLICATION_LOG_BASED :: string where
  "REPLICATION_LOG_BASED = ''LOG_BASED''"

definition primary_keys :: "stream \<Rightarrow> string list option" where
  "primary_keys s = (if \<not> truthy_opt (priv_primary_keys s) then None else priv_primary_keys s)"

definition replication_key :: "stream \<Rightarrow> string option" where
  "replication_key s = (if \<not> truthy_opt (priv_replication_key s) then None else priv_replication_key s)"

definition config :: "stream \<Rightarrow> pydict" where
  "config s = priv_config s"

definition replication_method :: "stream \<Rightarrow> string" where
  "replication_method s =
     (if truthy_opt (forced_replication_method s) then the (forced_replication_method s)
      else if truthy_opt (replication_key s) then REPLICATION_INCREMENTAL
      else REPLICATION_FULL_TABLE)"

text \<open>\<open>Catalog.get_stream\<close> of the Singer library: the first entry with the given id, or \<open>None\<close>.\<close>

fun get_stream :: "catalog \<Rightarrow> string \<Rightarrow> catalog_entry option" where
  "get_stream [] tap_id = None"
| "get_stream (e # es) tap_id = (if entry_tap_stream_id e = tap_id then Some e else get_stream es tap_id)"

text \<open>
  \<open>apply_catalog\<close> mutates the stream; the model returns the updated stream. The argument is
  the catalog as \<open>Catalog.from_dict\<close> parses it. A \<open>CatalogEntry\<close> object is always truthy.
\<close>

definition apply_catalog :: "stream \<Rightarrow> catalog \<Rightarrow> stream" where
  "apply_catalog s catalog_dict =
     (let s1 = s\<lparr>priv_tap_input_catalog := Some catalog_dict\<rparr> in
      case get_stream catalog_dict (name s1) of
        None \<Rightarrow> s1
      | Some catalog_entry \<Rightarrow>
          (let s2 = s1\<lparr>priv_primary_keys := entry_key_properties catalog_entry\<rparr>;
               s3 = s2\<lparr>priv_replication_key := entry_replication_key catalog_entry\<rparr>
           in if truthy_opt (entry_replication_method catalog_entry)
              then s3\<lparr>forced_replication_method := entry_replication_method catalog_entry\<rparr>
              else s3))"

section \<open>External collaborators\<close>

text \<open>
  What the stream calls outside \<open>core.py\<close>, taken as parameters: the wall clock (\<open>utc_now\<close>
  and \<open>pendulum.now\<close>; \<open>wall_clock E i\<close> is the clock's \<open>i\<close>-th reading of the run), the schema
  files on disk with their parsed JSON content, \<open>is_datetime_type\<close>, \<open>pendulum.parse\<close>,
  \<open>pop_deselected_record_properties\<close> (stream name, row) and \<open>conform_record_data_types\<close>
  (stream name, row, schema).
\<close>

record env =
  wall_clock :: "nat \<Rightarrow> int"
  schema_files :: "string \<Rightarrow> pydict option"
  is_datetime_type :: "pyval option \<Rightarrow> error + bool"
  pendulum_parse :: "pyval \<Rightarrow> error + int"
  pop_deselected_record_properties :: "string \<Rightarrow> pydict \<Rightarrow> pydict"
  conform_record_data_types :: "string \<Rightarrow> pydict \<Rightarrow> pydict \<Rightarrow> pydict"

text \<open>
  The \<open>schema\<close> property. A \<open>Path\<close> object is always truthy, so \<open>if self.schema_filepath\<close>
  tests for \<open>None\<close>. The property stores the loaded file in \<open>_schema\<close>; the model reads the
  same file again instead, which gives the same dictionary.
\<close>

definition schema :: "env \<Rightarrow> stream \<Rightarrow> error + pydict" where
  "schema E s =
     (let loaded =
        (if \<not> truthy_opt (priv_schema s) then
           (case priv_schema_filepath s of
              None \<Rightarrow> Inr (priv_schema s)
            | Some p \<Rightarrow>
                (case schema_files E p of
                   None \<Rightarrow> Inl FileExistsError
                 | Some d \<Rightarrow> Inr (Some d)))
         else Inr (priv_schema s))
      in case loaded of
           Inl e \<Rightarrow> Inl e
         | Inr sch \<Rightarrow> if \<not> truthy_opt sch then Inl ValueError else Inr (the sch))"

definition is_timestamp_replication_key :: "env \<Rightarrow> stream \<Rightarrow> error + bool" where
  "is_timestamp_replication_key E s =
     (case replication_key s of
        None \<Rightarrow> Inr False
      | Some rk \<Rightarrow>
          (case schema E s of
             Inl e \<Rightarrow> Inl e
           | Inr sch \<Rightarrow>
               (case (case map_of sch ''properties'' of None \<Rightarrow> PDict [] | Some v \<Rightarrow> v) of
                  PDict props \<Rightarrow> is_datetime_type E (map_of props rk)
                | _ \<Rightarrow> Inl AttributeError)))"

section \<open>The state store\<close>

text \<open>
  The state helpers of \<open>singer_sdk.helpers._state\<close> (\<open>get_writeable_state_dict\<close>,
  \<open>get_state_partitions_list\<close>, \<open>reset_state_progress_markers\<close>, \<open>increment_state\<close>,
  \<open>finalize_state_progress_markers\<close>) are imported by \<open>core.py\<close> and are not among the
  sources. This section models them, and the state tree they work on, from the spec.
\<close>

text \<open>
  Modelled from the spec: the bookmark record of section 3, "per (stream, partition):
  \<open>replication_key\<close>, \<open>replication_key_value\<close>, plus transient progress markers
  that record a tentative maximum seen this pass before it is finalized". The marker is
  the key with that maximum.
\<close>

record bookmark =
  bm_replication_key :: "string option"
  bm_replication_key_value :: "pyval option"
  bm_progress_markers :: "(string \<times> pyval) option"

text \<open>
  Modelled from the spec: the state tree of section 2, "mapping (stream, optional partition
  key) to a bookmark record". A stream has its own record and the records of its
  partitions, each with its context.
\<close>

record stream_bookmarks =
  own_bookmark :: bookmark
  partition_bookmarks :: "(pydict \<times> bookmark) list"

type_synonym tap_state = "string \<Rightarrow> stream_bookmarks option"

text \<open>
  Modelled from the spec: the dictionary \<open>get_writeable_state_dict\<close> returns is a reference
  into the shared tree, which the caller mutates in place. \<open>state_ref\<close> names the entry,
  \<open>deref\<close> reads it (an entry not yet created reads as the empty record) and \<open>assign\<close>
  writes it.
\<close>

datatype state_ref = Stream_entry string | Partition_entry string pydict

text \<open>Modelled from the spec: the "empty bookmark" of a partition not yet seen (section 3).\<close>

definition blank_bookmark :: bookmark where
  "blank_bookmark =
     \<lparr>bm_replication_key = None, bm_replication_key_value = None, bm_progress_markers = None\<rparr>"

text \<open>Modelled from the spec: the entry of a stream not yet seen, with no partitions.\<close>

definition blank_stream_bookmarks :: stream_bookmarks where
  "blank_stream_bookmarks = \<lparr>own_bookmark = blank_bookmark, partition_bookmarks = []\<rparr>"

text \<open>Modelled from the spec: whether the tree already holds the entry.\<close>

fun has_entry :: "tap_state \<Rightarrow> state_ref \<Rightarrow> bool" where
  "has_entry T (Stream_entry n) = (T n \<noteq> None)"
| "has_entry T (Partition_entry n p) =
     (case T n of None \<Rightarrow> False | Some sb \<Rightarrow> map_of (partition_bookmarks sb) p \<noteq> None)"

text \<open>Modelled from the spec: reading the entry a reference names.\<close>

fun deref :: "tap_state \<Rightarrow> state_ref \<Rightarrow> bookmark" where
  "deref T (Stream_entry n) =
     (case T n of None \<Rightarrow> blank_bookmark | Some sb \<Rightarrow> own_bookmark sb)"
| "deref T (Partition_entry n p) =
     (case T n of
        None \<Rightarrow> blank_bookmark
      | Some sb \<Rightarrow>
          (case map_of (partition_bookmarks sb) p of None \<Rightarrow> blank_bookmark | Some b \<Rightarrow> b))"

text \<open>
  Modelled from the spec: writing the entry a reference names, creating the stream's entry
  and the partition's entry where they are missing.
\<close>

fun assign :: "tap_state \<Rightarrow> state_ref \<Rightarrow> bookmark \<Rightarrow> tap_state" where
  "assign T (Stream_entry n) b =
     T(n \<mapsto> (case T n of None \<Rightarrow> blank_stream_bookmarks | Some sb \<Rightarrow> sb)\<lparr>own_bookmark := b\<rparr>)"
| "assign T (Partition_entry n p) b =
     (let sb = (case T n of None \<Rightarrow> blank_stream_bookmarks | Some sb \<Rightarrow> sb)
      in T(n \<mapsto> sb\<lparr>partition_bookmarks := AList.update p b (partition_bookmarks sb)\<rparr>))"

text \<open>
  Modelled from the spec: the entry for (stream, partition); an absent partition "means
  the whole stream is one partition" (section 3), and so does an empty context.
\<close>

definition state_ref_of :: "string \<Rightarrow> pydict option \<Rightarrow> state_ref" where
  "state_ref_of tap_stream_id context =
     (if truthy_opt context then Partition_entry tap_stream_id (the context)
      else Stream_entry tap_stream_id)"

text \<open>
  Modelled from the spec: "creating an empty record on first access (monotonic: never
  removes entries)" (section 4.1).
\<close>

definition ensure_entry :: "tap_state \<Rightarrow> state_ref \<Rightarrow> tap_state" where
  "ensure_entry T r = (if has_entry T r then T else assign T r blank_bookmark)"

text \<open>
  Modelled from the spec: \<open>get(stream, partition)\<close> of section 4.1, get-or-create. It returns
  the tree after the creation and the reference to the entry.
\<close>

definition get_writeable_state_dict ::
  "tap_state \<Rightarrow> string \<Rightarrow> pydict option \<Rightarrow> tap_state \<times> state_ref" where
  "get_writeable_state_dict T tap_stream_id context =
     (let r = state_ref_of tap_stream_id context in (ensure_entry T r, r))"

text \<open>
  Modelled from the spec: \<open>list_partitions(stream)\<close> of section 4.1 "returns the contexts of
  all partitions already represented in state"; the helper returns their state entries,
  from which the \<open>partitions\<close> property takes the contexts, or \<open>None\<close>.
\<close>

definition get_state_partitions_list ::
  "tap_state \<Rightarrow> string \<Rightarrow> (pydict \<times> bookmark) list option" where
  "get_state_partitions_list T tap_stream_id =
     (case T tap_stream_id of None \<Rightarrow> None | Some sb \<Rightarrow> Some (partition_bookmarks sb))"

text \<open>
  Modelled from the spec: "Reset its transient progress markers to empty" (section 4.5).
\<close>

definition reset_state_progress_markers :: "bookmark \<Rightarrow> bookmark" where
  "reset_state_progress_markers b = b\<lparr>bm_progress_markers := None\<rparr>"

text \<open>
  Modelled from the spec: "promote the progress-marker maximum to the real
  \<open>replication_key_value\<close> of the bookmark and discard the marker" (section 4.4, step 6).
\<close>

definition finalize_state_progress_markers :: "bookmark \<Rightarrow> bookmark" where
  "finalize_state_progress_markers b =
     (case bm_progress_markers b of
        None \<Rightarrow> b
      | Some (k, m) \<Rightarrow>
          b\<lparr>bm_replication_key := Some k, bm_replication_key_value := Some m,
            bm_progress_markers := None\<rparr>)"

text \<open>
  Modelled from the spec: the "type-aware comparison; timestamps compared chronologically,
  others by natural ordering" of section 4.4, step 5. Integers, strings and timestamps
  compare among themselves; values of different types do not compare.
\<close>

fun py_lt :: "pyval \<Rightarrow> pyval \<Rightarrow> error + bool" where
  "py_lt (PInt a) (PInt b) = Inr (a < b)"
| "py_lt (PStr a) (PStr b) = Inr (a < b)"
| "py_lt (PTime a) (PTime b) = Inr (a < b)"
| "py_lt _ _ = Inl TypeError"

text \<open>
  Modelled from the spec: \<open>advance\<close> of section 4.4, steps 3 to 5. Extract the candidate
  \<open>latest_record[replication_key]\<close>; "if ceiling is present and candidate_value > ceiling, the
  candidate is ignored for bookmark purposes"; otherwise compare it with the progress-marker
  maximum \<open>M\<close>: "if sortedness is true and candidate_value < M" raise the ordering error,
  "otherwise set M = max(M, candidate_value)".
\<close>

definition increment_state ::
  "bookmark \<Rightarrow> string \<Rightarrow> pyval option \<Rightarrow> pydict \<Rightarrow> bool \<Rightarrow> error + bookmark" where
  "increment_state state_dict rk replication_key_signpost latest_record sorted_flag =
     (case map_of latest_record rk of
        None \<Rightarrow> Inl KeyError
      | Some candidate \<Rightarrow>
          (case (case replication_key_signpost of
                   None \<Rightarrow> Inr False
                 | Some ceiling \<Rightarrow> py_lt ceiling candidate) of
             Inl e \<Rightarrow> Inl e
           | Inr True \<Rightarrow> Inr state_dict
           | Inr False \<Rightarrow>
               (case bm_progress_markers state_dict of
                  None \<Rightarrow> Inr (state_dict\<lparr>bm_progress_markers := Some (rk, candidate)\<rparr>)
                | Some (k, m) \<Rightarrow>
                    (case py_lt candidate m of
                       Inl e \<Rightarrow> Inl e
                     | Inr True \<Rightarrow>
                         if sorted_flag then Inl InvalidStreamSortException else Inr state_dict
                     | Inr False \<Rightarrow>
                         Inr (state_dict\<lparr>bm_progress_markers := Some (rk, candidate)\<rparr>)))))"

section \<open>The running tap\<close>

text \<open>
  What a sync reads and writes besides the stream object: the state tree shared by all
  streams, the messages written so far by \<open>singer.write_message\<close>, the log, and the number of
  clock readings taken so far. An exception leaves all of it as it was when the exception
  was raised, so every operation returns the new \<open>world\<close> together with its result or error.
\<close>

datatype message =
    RecordMessage string pydict int
  | StateMessage tap_state

text \<open>
  The two log lines of \<open>_sync_records\<close>, by their fields: "Completed '{name}' sync
  ({rows_sent} records)." and "Sorting error detected on row #{rows_sent+1}. ", followed by
  "Partition was {partition}. " when the partition is truthy, and by the exception's text.
\<close>

datatype log_entry =
    Info_completed string int
  | Error_sorting int "pydict option" error

record world =
  tap_state :: tap_state
  stdout :: "message list"
  logged :: "log_entry list"
  clock_reads :: nat

definition utc_now :: "env \<Rightarrow> world \<Rightarrow> world \<times> int" where
  "utc_now E w = (w\<lparr>clock_reads := Suc (clock_reads w)\<rparr>, wall_clock E (clock_reads w))"

definition stream_state :: "stream \<Rightarrow> world \<Rightarrow> world \<times> state_ref" where
  "stream_state s w =
     (case get_writeable_state_dict (tap_state w) (name s) None of
        (T, r) \<Rightarrow> (w\<lparr>tap_state := T\<rparr>, r))"

definition get_partition_state :: "stream \<Rightarrow> pydict \<Rightarrow> world \<Rightarrow> world \<times> state_ref" where
  "get_partition_state s part w =
     (case get_writeable_state_dict (tap_state w) (name s) (Some part) of
        (T, r) \<Rightarrow> (w\<lparr>tap_state := T\<rparr>, r))"

definition get_stream_or_partition_state ::
  "stream \<Rightarrow> pydict option \<Rightarrow> world \<Rightarrow> world \<times> state_ref" where
  "get_stream_or_partition_state s part w =
     (if truthy_opt part then get_partition_state s (the part) w else stream_state s w)"

definition get_starting_timestamp ::
  "env \<Rightarrow> stream \<Rightarrow> pydict option \<Rightarrow> world \<Rightarrow> world \<times> (error + int option)" where
  "get_starting_timestamp E s part w =
     (let from_config =
        (case map_of (config s) ''start_date'' of
           None \<Rightarrow> Inr None
         | Some d \<Rightarrow> (case pendulum_parse E d of Inl e \<Rightarrow> Inl e | Inr t \<Rightarrow> Inr (Some t)))
      in case is_timestamp_replication_key E s of
           Inl e \<Rightarrow> (w, Inl e)
         | Inr False \<Rightarrow> (w, from_config)
         | Inr True \<Rightarrow>
             (case get_stream_or_partition_state s part w of
                (w1, state) \<Rightarrow>
                  (let replication_key_value = bm_replication_key_value (deref (tap_state w1) state)
                   in if (case replication_key_value of None \<Rightarrow> False | Some v \<Rightarrow> truthy v)
                         \<and> replication_key s = bm_replication_key (deref (tap_state w1) state)
                      then (w1, case pendulum_parse E (the replication_key_value) of
                                  Inl e \<Rightarrow> Inl e
                                | Inr t \<Rightarrow> Inr (Some t))
                      else (w1, from_config))))"

definition get_replication_key_signpost ::
  "env \<Rightarrow> stream \<Rightarrow> pydict option \<Rightarrow> world \<Rightarrow> world \<times> (error + pyval option)" where
  "get_replication_key_signpost E s part w =
     (case is_timestamp_replication_key E s of
        Inl e \<Rightarrow> (w, Inl e)
      | Inr True \<Rightarrow> (case utc_now E w of (w1, t) \<Rightarrow> (w1, Inr (Some (PTime t))))
      | Inr False \<Rightarrow> (w, Inr None))"

definition increment_stream_state ::
  "env \<Rightarrow> stream \<Rightarrow> pydict \<Rightarrow> pydict option \<Rightarrow> world \<Rightarrow> world \<times> (error + unit)" where
  "increment_stream_state E s latest_record part w =
     (case get_stream_or_partition_state s part w of
        (w1, state_dict) \<Rightarrow>
          if latest_record \<noteq> [] then
            if replication_method s \<in> set [REPLICATION_INCREMENTAL, REPLICATION_LOG_BASED] then
              (case replication_key s of
                 None \<Rightarrow> (w1, Inl ValueError)
               | Some rk \<Rightarrow>
                   (case get_replication_key_signpost E s part w1 of
                      (w2, Inl e) \<Rightarrow> (w2, Inl e)
                    | (w2, Inr signpost) \<Rightarrow>
                        (case increment_state (deref (tap_state w2) state_dict) rk signpost
                                latest_record (is_sorted s) of
                           Inl e \<Rightarrow> (w2, Inl e)
                         | Inr b \<Rightarrow>
                             (w2\<lparr>tap_state := assign (tap_state w2) state_dict b\<rparr>, Inr ()))))
            else (w1, Inr ())
          else (w1, Inr ()))"

definition write_state_message :: "world \<Rightarrow> world" where
  "write_state_message w = w\<lparr>stdout := stdout w @ [StateMessage (tap_state w)]\<rparr>"

text \<open>
  \<open>_write_record_message\<close> builds the catalog from \<open>self.schema\<close> first (which may raise), then
  removes the deselected properties from the caller's row in place, so the caller goes on
  with the reduced row: the model returns it. The message carries the conformed row and the
  time of extraction.
\<close>

definition write_record_message ::
  "env \<Rightarrow> stream \<Rightarrow> pydict \<Rightarrow> world \<Rightarrow> world \<times> (error + pydict)" where
  "write_record_message E s record w =
     (case schema E s of
        Inl e \<Rightarrow> (w, Inl e)
      | Inr sch \<Rightarrow>
          (let popped = pop_deselected_record_properties E (name s) record;
               conformed = conform_record_data_types E (name s) popped sch
           in case utc_now E w of
                (w1, now) \<Rightarrow>
                  (w1\<lparr>stdout := stdout w1 @ [RecordMessage (name s) conformed now]\<rparr>, Inr popped)))"

text \<open>
  The test \<open>rows_sent and ((rows_sent - 1) % self.STATE_MSG_FREQUENCY == 0)\<close>: the modulus is
  only computed for a nonzero \<open>rows_sent\<close>, and a frequency of zero raises there.
\<close>

definition flush_due :: "stream \<Rightarrow> int \<Rightarrow> error + bool" where
  "flush_due s rows_sent =
     (if rows_sent = 0 then Inr False
      else if STATE_MSG_FREQUENCY s = 0 then Inl ZeroDivisionError
      else Inr ((rows_sent - 1) mod STATE_MSG_FREQUENCY s = 0))"

text \<open>The body of the loop over the rows of one partition.\<close>

definition sync_row ::
  "env \<Rightarrow> stream \<Rightarrow> pydict option \<Rightarrow> pydict \<Rightarrow> int \<Rightarrow> world \<Rightarrow> world \<times> (error + int)" where
  "sync_row E s part row_dict rows_sent w =
     (if (case MAX_RECORDS_LIMIT s of None \<Rightarrow> False | Some limit \<Rightarrow> rows_sent \<ge> limit)
      then (w, Inl MaxRecordsLimitException)
      else
        (case flush_due s rows_sent of
           Inl e \<Rightarrow> (w, Inl e)
         | Inr due \<Rightarrow>
             (case write_record_message E s row_dict (if due then write_state_message w else w) of
                (w2, Inl e) \<Rightarrow> (w2, Inl e)
              | (w2, Inr popped) \<Rightarrow>
                  (case increment_stream_state E s popped part w2 of
                     (w3, Inl ex) \<Rightarrow>
                       if ex = InvalidStreamSortException
                       then (w3\<lparr>logged := logged w3 @
                                  [Error_sorting (rows_sent + 1)
                                     (if truthy_opt part then part else None) ex]\<rparr>, Inl ex)
                       else (w3, Inl ex)
                   | (w3, Inr u) \<Rightarrow> (w3, Inr (rows_sent + 1))))))"

fun sync_rows ::
  "env \<Rightarrow> stream \<Rightarrow> pydict option \<Rightarrow> pydict list \<Rightarrow> int \<Rightarrow> world \<Rightarrow> world \<times> (error + int)" where
  "sync_rows E s part [] rows_sent w = (w, Inr rows_sent)"
| "sync_rows E s part (row_dict # rest) rows_sent w =
     (case sync_row E s part row_dict rows_sent w of
        (w1, Inl e) \<Rightarrow> (w1, Inl e)
      | (w1, Inr n) \<Rightarrow> sync_rows E s part rest n w1)"

text \<open>The body of the loop over the partitions: reset, the rows, finalize.\<close>

definition sync_partition ::
  "env \<Rightarrow> stream \<Rightarrow> pydict option \<Rightarrow> int \<Rightarrow> world \<Rightarrow> world \<times> (error + int)" where
  "sync_partition E s part rows_sent w =
     (case get_stream_or_partition_state s part w of
        (w1, state) \<Rightarrow>
          (let w2 = w1\<lparr>tap_state := assign (tap_state w1) state
                         (reset_state_progress_markers (deref (tap_state w1) state))\<rparr>
           in case sync_rows E s part (get_records s part) rows_sent w2 of
                (w3, Inl e) \<Rightarrow> (w3, Inl e)
              | (w3, Inr n) \<Rightarrow>
                  (w3\<lparr>tap_state := assign (tap_state w3) state
                         (finalize_state_progress_markers (deref (tap_state w3) state))\<rparr>,
                   Inr n)))"

fun sync_partitions ::
  "env \<Rightarrow> stream \<Rightarrow> pydict option list \<Rightarrow> int \<Rightarrow> world \<Rightarrow> world \<times> (error + int)" where
  "sync_partitions E s [] rows_sent w = (w, Inr rows_sent)"
| "sync_partitions E s (part # rest) rows_sent w =
     (case sync_partition E s part rows_sent w of
        (w1, Inl e) \<Rightarrow> (w1, Inl e)
      | (w1, Inr n) \<Rightarrow> sync_partitions E s rest n w1)"

text \<open>The \<open>partitions\<close> property: the contexts of the partitions in state, or \<open>None\<close>.\<close>

definition partitions :: "stream \<Rightarrow> world \<Rightarrow> pydict list option" where
  "partitions s w =
     (let result =
        map fst (case get_state_partitions_list (tap_state w) (name s) of
                   None \<Rightarrow> []
                 | Some l \<Rightarrow> l)
      in if result = [] then None else Some result)"

text \<open>The list \<open>_sync_records\<close> iterates over: the given partition, else the known ones, else \<open>[None]\<close>.\<close>

definition partitions_to_sync :: "stream \<Rightarrow> pydict option \<Rightarrow> world \<Rightarrow> pydict option list" where
  "partitions_to_sync s part w =
     (if truthy_opt part then [part]
      else if truthy_opt (partitions s w) then map Some (the (partitions s w))
      else [None])"

definition sync_records ::
  "env \<Rightarrow> stream \<Rightarrow> pydict option \<Rightarrow> world \<Rightarrow> world \<times> (error + unit)" where
  "sync_records E s part w =
     (case sync_partitions E s (partitions_to_sync s part w) 0 w of
        (w1, Inl e) \<Rightarrow> (w1, Inl e)
      | (w1, Inr rows_sent) \<Rightarrow>
          (write_state_message
             (w1\<lparr>logged := logged w1 @ [Info_completed (name s) rows_sent]\<rparr>), Inr ()))"

section \<open>Reading the output\<close>

datatype kind = RECORD | STATE

fun kind_of :: "message \<Rightarrow> kind" where
  "kind_of (RecordMessage n r t) = RECORD"
| "kind_of (StateMessage T) = STATE"

text \<open>The rows of the record messages of an output, with their stream, in order.\<close>

fun records_written :: "message list \<Rightarrow> (string \<times> pydict) list" where
  "records_written [] = []"
| "records_written (RecordMessage n r t # ms) = (n, r) # records_written ms"
| "records_written (StateMessage T # ms) = records_written ms"

section \<open>A concrete tap\<close>

text \<open>
  A clock that advances by one at every reading, no schema files, a date-time test on the
  \<open>format\<close> of a type descriptor, a parser that knows two dates, no deselected properties and
  no type coercion.
\<close>

definition demo_env :: env where
  "demo_env =
     \<lparr>wall_clock = (\<lambda>i. 1000 + int i),
      schema_files = (\<lambda>p. None),
      is_datetime_type =
        (\<lambda>td. case td of
                None \<Rightarrow> Inl ValueError
              | Some d \<Rightarrow>
                  Inr (map_of (case d of PDict kv \<Rightarrow> kv | _ \<Rightarrow> []) ''format''
                         = Some (PStr ''date-time''))),
      pendulum_parse =
        (\<lambda>v. case v of
                PStr x \<Rightarrow>
                  (if x = ''2021-01-01'' then Inr 500
                   else if x = ''2021-06-01'' then Inr 800
                   else Inl ParserError)
              | _ \<Rightarrow> Inl TypeError),
      pop_deselected_record_properties = (\<lambda>n r. r),
      conform_record_data_types = (\<lambda>n r sch. r)\<rparr>"

text \<open>A sorted stream \<open>orders\<close> with the integer replication key \<open>id\<close> and three rows.\<close>

definition demo_stream :: stream where
  "demo_stream =
     \<lparr>name = ''orders'',
      priv_config = [(''start_date'', PStr ''2021-01-01'')],
      priv_tap_input_catalog = None,
      forced_replication_method = None,
      priv_replication_key = Some ''id'',
      priv_primary_keys = Some [''id''],
      priv_schema_filepath = None,
      priv_schema =
        Some [(''properties'',
               PDict [(''id'', PDict [(''type'', PStr ''integer'')]),
                      (''updated_at'',
                       PDict [(''type'', PStr ''string''), (''format'', PStr ''date-time'')])])],
      STATE_MSG_FREQUENCY = 3,
      MAX_RECORDS_LIMIT = None,
      is_sorted = True,
      get_records = (\<lambda>p. [[(''id'', PInt 1)], [(''id'', PInt 2)], [(''id'', PInt 3)]])\<rparr>"

text \<open>The rows with the given values of \<open>id\<close>.\<close>

definition rows_with_ids :: "int list \<Rightarrow> pydict list" where
  "rows_with_ids ids = map (\<lambda>i. [(''id'', PInt i)]) ids"

text \<open>The same stream replicating on the timestamp \<open>updated_at\<close>.\<close>

definition demo_ts_stream :: stream where
  "demo_ts_stream = demo_stream\<lparr>priv_replication_key := Some ''updated_at''\<rparr>"

text \<open>A fresh run: no state, nothing written, the clock not yet read.\<close>

definition demo_world :: world where
  "demo_world = \<lparr>tap_state = Map.empty, stdout = [], logged = [], clock_reads = 0\<rparr>"

text \<open>A resumed run: the state of \<open>orders\<close> holds a bookmark of the given key.\<close>

definition resumed_world :: "string \<Rightarrow> world" where
  "resumed_world k =
     demo_world\<lparr>tap_state :=
       [''orders'' \<mapsto>
          \<lparr>own_bookmark =
             \<lparr>bm_replication_key = Some k,
              bm_replication_key_value = Some (PStr ''2021-06-01''),
              bm_progress_markers = None\<rparr>,
           partition_bookmarks = []\<rparr>]\<rparr>"

text \<open>A catalog whose entry for \<open>orders\<close> declares no keys and no replication method.\<close>

definition bare_catalog :: catalog where
  "bare_catalog =
     [\<lparr>entry_tap_stream_id = ''orders'', entry_key_properties = None,
       entry_replication_key = None, entry_replication_method = None\<rparr>]"

text \<open>A catalog whose entry for \<open>orders\<close> declares all three.\<close>

definition full_catalog :: catalog where
  "full_catalog =
     [\<lparr>entry_tap_stream_id = ''orders'', entry_key_properties = Some [''order_no''],
       entry_replication_key = Some ''updated_at'',
       entry_replication_method = Some ''LOG_BASED''\<rparr>]"

text \<open>The stream forced to \<open>INCREMENTAL\<close> with no replication key configured.\<close>

definition keyless_stream :: stream where
  "keyless_stream =
     demo_stream\<lparr>priv_replication_key := None, forced_replication_method := Some ''INCREMENTAL''\<rparr>"

text \<open>An output that is empty or ends with a record message.\<close>

definition tail_ok :: "message list \<Rightarrow> bool" where
  "tail_ok ms = (ms = [] \<or> kind_of (last ms) = RECORD)"

text \<open>Two partitions of \<open>orders\<close>, known to the state of a run before it starts.\<close>

definition region_a :: pydict where
  "region_a = [(''region'', PStr ''a'')]"

definition region_b :: pydict where
  "region_b = [(''region'', PStr ''b'')]"

definition partitioned_world :: world where
  "partitioned_world =
     demo_world\<lparr>tap_state :=
       [''orders'' \<mapsto>
          \<lparr>own_bookmark = blank_bookmark,
           partition_bookmarks = [(region_a, blank_bookmark), (region_b, blank_bookmark)]\<rparr>]\<rparr>"

text \<open>The stream capped at one record, with one row in every partition.\<close>

definition capped_stream :: stream where
  "capped_stream =
     demo_stream\<lparr>MAX_RECORDS_LIMIT := Some 1, get_records := (\<lambda>p. [[(''id'', PInt 1)]])\<rparr>"

text \<open>
  Every bookmark of the tree \<open>T'\<close> has the key and the value it has in \<open>T\<close>, and a progress
  marker that is empty or the one in \<open>T\<close>.
\<close>

definition keeps_bookmarks :: "tap_state \<Rightarrow> tap_state \<Rightarrow> bool" where
  "keeps_bookmarks T T' =
     (\<forall>r. bm_replication_key (deref T' r) = bm_replication_key (deref T r) \<and>
          bm_replication_key_value (deref T' r) = bm_replication_key_value (deref T r) \<and>
          (bm_progress_markers (deref T' r) = None \<or>
           bm_progress_markers (deref T' r) = bm_progress_markers (deref T r)))"

text \<open>What the record message of a row carries: the stream and the projected, conformed row.\<close>

definition emitted_row :: "env \<Rightarrow> stream \<Rightarrow> pydict \<Rightarrow> pydict \<Rightarrow> string \<times> pydict" where
  "emitted_row E s sch row_dict =
     (name s, conform_record_data_types E (name s)
                (pop_deselected_record_properties E (name s) row_dict) sch)"

text \<open>The stream without a replication key (\<open>FULL_TABLE\<close>), with seven rows.\<close>

definition full_table_stream :: stream where
  "full_table_stream =
     demo_stream\<lparr>priv_replication_key := None,
                 get_records := (\<lambda>p. rows_with_ids [1, 2, 3, 4, 5, 6, 7])\<rparr>"

text \<open>
  The kinds of the messages written for \<open>k\<close> rows at state message frequency \<open>f\<close>, when \<open>n\<close>
  rows were sent before: a state message before a row exactly when \<open>n\<close> is nonzero and
  \<open>(n - 1) mod f = 0\<close>.
\<close>

fun cadence :: "int \<Rightarrow> int \<Rightarrow> nat \<Rightarrow> kind list" where
  "cadence f n 0 = []"
| "cadence f n (Suc k) =
     (if n \<noteq> 0 \<and> (n - 1) mod f = 0 then [STATE] else []) @ RECORD # cadence f (n + 1) k"

text \<open>
  The stream replicating on \<open>updated_at\<close> with two rows, dated 900 and 1002, read while the
  clock of \<open>demo_env\<close> moves on.
\<close>

definition drifting_stream :: stream where
  "drifting_stream =
     demo_ts_stream\<lparr>get_records :=
       (\<lambda>p. [[(''updated_at'', PTime 900)], [(''updated_at'', PTime 1002)]])\<rparr>"

text \<open>The stream \<open>orders\<close> with its rows out of order.\<close>

definition out_of_order_stream :: stream where
  "out_of_order_stream = demo_stream\<lparr>get_records := (\<lambda>p. rows_with_ids [1, 3, 2])\<rparr>"

section \<open>The state store: reading after writing\<close>

lemma deref_assign: "deref (assign T r b) r' = (if r' = r then b else deref T r')"
  by (cases r; cases r')
     (auto simp: Let_def update_conv' blank_stream_bookmarks_def split: option.splits)

lemma deref_blank: "\<not> has_entry T r \<Longrightarrow> deref T r = blank_bookmark"
  by (cases r) (auto split: option.splits)

lemma deref_ensure_entry: "deref (ensure_entry T r) r' = deref T r'"
  by (simp add: ensure_entry_def deref_assign deref_blank)

lemma get_stream_or_partition_state_eq:
  "get_stream_or_partition_state s part w =
     (w\<lparr>tap_state := ensure_entry (tap_state w) (state_ref_of (name s) part)\<rparr>,
      state_ref_of (name s) part)"
  by (cases part)
     (simp_all add: get_stream_or_partition_state_def get_partition_state_def stream_state_def
        get_writeable_state_dict_def state_ref_of_def Let_def)

section \<open>The replication method\<close>

text \<open>
  C9: the \<open>replication_method\<close> property equals the forced replication method when one is
  set (neither \<open>None\<close> nor empty); otherwise \<open>INCREMENTAL\<close> when a replication key is set;
  otherwise \<open>FULL_TABLE\<close>.
\<close>

theorem replication_method_derivation:
  "(\<forall>m. forced_replication_method s = Some m \<and> m \<noteq> [] \<longrightarrow> replication_method s = m) \<and>
   (\<not> truthy_opt (forced_replication_method s) \<and> replication_key s \<noteq> None \<longrightarrow>
      replication_method s = ''INCREMENTAL'') \<and>
   (\<not> truthy_opt (forced_replication_method s) \<and> replication_key s = None \<longrightarrow>
      replication_method s = ''FULL_TABLE'')"
  by (auto simp: replication_method_def replication_key_def REPLICATION_INCREMENTAL_def
        REPLICATION_FULL_TABLE_def)

text \<open>The three cases on \<open>orders\<close>: forced to \<open>LOG_BASED\<close>, as configured, and without its key.\<close>

theorem replication_method_derivation_witness:
  "replication_method (demo_stream\<lparr>forced_replication_method := Some ''LOG_BASED''\<rparr>) = ''LOG_BASED'' \<and>
   replication_method demo_stream = ''INCREMENTAL'' \<and>
   replication_method (demo_stream\<lparr>priv_replication_key := None\<rparr>) = ''FULL_TABLE''"
  using replication_method_derivation [of "demo_stream\<lparr>forced_replication_method := Some ''LOG_BASED''\<rparr>"]
    replication_method_derivation [of demo_stream]
    replication_method_derivation [of "demo_stream\<lparr>priv_replication_key := None\<rparr>"]
  by (simp add: demo_stream_def replication_key_def)

section \<open>Applying a catalog\<close>

text \<open>
  C5, as the code has it: with an entry for the stream in the catalog, \<open>apply_catalog\<close> sets
  the primary keys and the replication key to the entry's values whether or not they are
  present, so an entry without them clears the stream's own, and it overrides the forced
  replication method only when the entry's method is present. With no entry for the
  stream all three stay as configured.
\<close>

theorem apply_catalog_overrides:
  "(get_stream c (name s) = None \<longrightarrow>
      primary_keys (apply_catalog s c) = primary_keys s \<and>
      replication_key (apply_catalog s c) = replication_key s \<and>
      forced_replication_method (apply_catalog s c) = forced_replication_method s) \<and>
   (\<forall>e. get_stream c (name s) = Some e \<longrightarrow>
      primary_keys (apply_catalog s c) =
        (if truthy_opt (entry_key_properties e) then entry_key_properties e else None) \<and>
      replication_key (apply_catalog s c) =
        (if truthy_opt (entry_replication_key e) then entry_replication_key e else None) \<and>
      forced_replication_method (apply_catalog s c) =
        (if truthy_opt (entry_replication_method e) then entry_replication_method e
         else forced_replication_method s))"
  by (auto simp: apply_catalog_def primary_keys_def replication_key_def Let_def)

text \<open>A catalog that declares all three, and a catalog with no entry for \<open>orders\<close>.\<close>

theorem apply_catalog_overrides_witness:
  "primary_keys (apply_catalog demo_stream full_catalog) = Some [''order_no''] \<and>
   replication_key (apply_catalog demo_stream full_catalog) = Some ''updated_at'' \<and>
   forced_replication_method (apply_catalog demo_stream full_catalog) = Some ''LOG_BASED'' \<and>
   primary_keys (apply_catalog demo_stream []) = Some [''id''] \<and>
   replication_key (apply_catalog demo_stream []) = Some ''id'' \<and>
   forced_replication_method (apply_catalog demo_stream []) = None"
  using apply_catalog_overrides [of full_catalog demo_stream]
    apply_catalog_overrides [of "[]" demo_stream]
  by (simp add: demo_stream_def full_catalog_def primary_keys_def replication_key_def)

text \<open>
  C5 as stated fails: the entry of \<open>bare_catalog\<close> for \<open>orders\<close> declares neither primary keys
  nor a replication key, and applying it leaves the stream with neither, where it had
  \<open>id\<close> for both.
\<close>

theorem apply_catalog_clears_keys_counterexample:
  "get_stream bare_catalog (name demo_stream) \<noteq> None \<and>
   primary_keys demo_stream = Some [''id''] \<and>
   replication_key demo_stream = Some ''id'' \<and>
   primary_keys (apply_catalog demo_stream bare_catalog) = None \<and>
   replication_key (apply_catalog demo_stream bare_catalog) = None"
  by (simp add: apply_catalog_def primary_keys_def replication_key_def Let_def
        demo_stream_def bare_catalog_def)

section \<open>The signpost\<close>

text \<open>
  C1 fails on the code: \<open>get_replication_key_signpost\<close> reads the clock at every call and
  stores nothing. Two calls in a row for the same stream and partition return the
  readings 1000 and 1001 of a clock that has moved on in between.
\<close>

theorem signpost_recomputed_on_every_call:
  "(case get_replication_key_signpost demo_env demo_ts_stream None demo_world of
      (w1, first_result) \<Rightarrow>
        (case get_replication_key_signpost demo_env demo_ts_stream None w1 of
           (w2, second_result) \<Rightarrow>
             first_result = Inr (Some (PTime 1000)) \<and>
             second_result = Inr (Some (PTime 1001)) \<and>
             second_result \<noteq> first_result))"
  by (simp add: get_replication_key_signpost_def is_timestamp_replication_key_def
        replication_key_def schema_def utc_now_def demo_env_def demo_ts_stream_def
        demo_stream_def demo_world_def)

section \<open>A missing replication key\<close>

lemma increment_stream_state_missing_key:
  assumes "replication_method s = ''INCREMENTAL'' \<or> replication_method s = ''LOG_BASED''"
      and "replication_key s = None"
      and "latest_record \<noteq> []"
  shows "increment_stream_state E s latest_record part w =
           (w\<lparr>tap_state := ensure_entry (tap_state w) (state_ref_of (name s) part)\<rparr>,
            Inl ValueError)"
  using assms
  by (auto simp: increment_stream_state_def get_stream_or_partition_state_eq
        REPLICATION_INCREMENTAL_def REPLICATION_LOG_BASED_def)

text \<open>
  C8: a stream whose replication method is \<open>INCREMENTAL\<close> or \<open>LOG_BASED\<close> and which has no
  replication key raises \<open>ValueError\<close> in \<open>_increment_stream_state\<close> on a non-empty record,
  with every bookmark of the state tree as it was. In \<open>_sync_records\<close> the error ends the
  loop at that record: no handler catches it and nothing is retried.
\<close>

theorem missing_replication_key_is_fatal:
  assumes "replication_method s = ''INCREMENTAL'' \<or> replication_method s = ''LOG_BASED''"
      and "replication_key s = None"
      and "latest_record \<noteq> []"
  shows "snd (increment_stream_state E s latest_record part w) = Inl ValueError \<and>
         (\<forall>r. deref (tap_state (fst (increment_stream_state E s latest_record part w))) r
                = deref (tap_state w) r) \<and>
         (\<forall>row_dict rest rows_sent sch due.
            pop_deselected_record_properties E (name s) row_dict = latest_record \<and>
            schema E s = Inr sch \<and> flush_due s rows_sent = Inr due \<and>
            (case MAX_RECORDS_LIMIT s of None \<Rightarrow> True | Some limit \<Rightarrow> rows_sent < limit) \<longrightarrow>
            snd (sync_rows E s part (row_dict # rest) rows_sent w) = Inl ValueError \<and>
            (\<forall>r. deref (tap_state (fst (sync_rows E s part (row_dict # rest) rows_sent w))) r
                   = deref (tap_state w) r))"
proof -
  note step = increment_stream_state_missing_key [OF assms]
  have "snd (increment_stream_state E s latest_record part w) = Inl ValueError"
    by (simp add: step)
  moreover have "\<forall>r. deref (tap_state (fst (increment_stream_state E s latest_record part w))) r
                = deref (tap_state w) r"
    by (simp add: step deref_ensure_entry)
  moreover have "snd (sync_rows E s part (row_dict # rest) rows_sent w) = Inl ValueError \<and>
            (\<forall>r. deref (tap_state (fst (sync_rows E s part (row_dict # rest) rows_sent w))) r
                   = deref (tap_state w) r)"
    if "pop_deselected_record_properties E (name s) row_dict = latest_record"
      and "schema E s = Inr sch" and "flush_due s rows_sent = Inr due"
      and "case MAX_RECORDS_LIMIT s of None \<Rightarrow> True | Some limit \<Rightarrow> rows_sent < limit"
    for row_dict rest rows_sent sch due
    using that
    by (auto simp: sync_row_def write_record_message_def write_state_message_def utc_now_def
          increment_stream_state_missing_key [OF assms] deref_ensure_entry Let_def
          split: option.splits)
  ultimately show ?thesis by blast
qed

text \<open>The stream \<open>orders\<close> forced to \<open>INCREMENTAL\<close> without a key, on a fresh run.\<close>

theorem missing_replication_key_is_fatal_witness:
  "snd (increment_stream_state demo_env keyless_stream [(''id'', PInt 1)] None demo_world)
     = Inl ValueError \<and>
   deref (tap_state (fst (increment_stream_state demo_env keyless_stream [(''id'', PInt 1)]
                            None demo_world))) (Stream_entry ''orders'') = blank_bookmark \<and>
   snd (sync_rows demo_env keyless_stream None (rows_with_ids [1, 2]) 0 demo_world)
     = Inl ValueError"
proof -
  have m: "replication_method keyless_stream = ''INCREMENTAL'' \<or>
           replication_method keyless_stream = ''LOG_BASED''"
    and k: "replication_key keyless_stream = None"
    by (simp_all add: replication_method_def replication_key_def keyless_stream_def
          demo_stream_def)
  have r: "[(''id'', PInt 1)] \<noteq> ([] :: pydict)" by simp
  note T = missing_replication_key_is_fatal [OF m k r, of demo_env None demo_world]
  have pre: "pop_deselected_record_properties demo_env (name keyless_stream) [(''id'', PInt 1)]
               = [(''id'', PInt 1)] \<and>
             schema demo_env keyless_stream = Inr (the (priv_schema demo_stream)) \<and>
             flush_due keyless_stream 0 = Inr False \<and>
             (case MAX_RECORDS_LIMIT keyless_stream of None \<Rightarrow> True | Some limit \<Rightarrow> 0 < limit)"
    by (simp add: schema_def flush_due_def demo_env_def keyless_stream_def demo_stream_def)
  have c: "snd (sync_rows demo_env keyless_stream None
               ([(''id'', PInt 1)] # [[(''id'', PInt 2)]]) 0 demo_world) = Inl ValueError"
    by (rule T [THEN conjunct2, THEN conjunct2, rule_format, OF pre, THEN conjunct1])
  have a: "snd (increment_stream_state demo_env keyless_stream [(''id'', PInt 1)] None demo_world)
     = Inl ValueError"
    by (rule T [THEN conjunct1])
  have b: "deref (tap_state (fst (increment_stream_state demo_env keyless_stream [(''id'', PInt 1)]
                            None demo_world))) (Stream_entry ''orders'') = blank_bookmark"
    using T [THEN conjunct2, THEN conjunct1, rule_format, of "Stream_entry ''orders''"]
    by (simp add: demo_world_def)
  show ?thesis
    using a b c by (simp only: rows_with_ids_def list.map simp_thms)
qed

section \<open>The starting timestamp\<close>

text \<open>
  C10: \<open>get_starting_timestamp\<close> returns the stored bookmark value, parsed, only when the
  replication key is timestamp-typed and the stored \<open>replication_key\<close> equals the stream's
  current one (and the stored value is truthy); in every other case it returns the parsed
  \<open>start_date\<close> of the configuration when there is one, and \<open>None\<close> otherwise. Here \<open>b\<close> is
  the state entry of the stream or partition.
\<close>

theorem get_starting_timestamp_cases:
  assumes "is_timestamp_replication_key E s = Inr ts"
      and "b = deref (tap_state w) (state_ref_of (name s) part)"
  shows "(\<forall>v. ts \<and> bm_replication_key b = replication_key s \<and>
              bm_replication_key_value b = Some v \<and> truthy v \<longrightarrow>
            snd (get_starting_timestamp E s part w) =
              (case pendulum_parse E v of Inl e \<Rightarrow> Inl e | Inr t \<Rightarrow> Inr (Some t))) \<and>
         (\<not> ts \<or> bm_replication_key b \<noteq> replication_key s \<or>
            \<not> (case bm_replication_key_value b of None \<Rightarrow> False | Some v \<Rightarrow> truthy v) \<longrightarrow>
            snd (get_starting_timestamp E s part w) =
              (case map_of (config s) ''start_date'' of
                 None \<Rightarrow> Inr None
               | Some d \<Rightarrow> (case pendulum_parse E d of Inl e \<Rightarrow> Inl e | Inr t \<Rightarrow> Inr (Some t))))"
  using assms
  by (cases ts)
     (auto simp: get_starting_timestamp_def get_stream_or_partition_state_eq deref_ensure_entry
        Let_def split: option.splits)

text \<open>
  Resuming \<open>orders\<close> on \<open>updated_at\<close>: a bookmark under \<open>updated_at\<close> is used; a bookmark
  recorded under \<open>id\<close> is ignored for the \<open>start_date\<close>, and for \<open>None\<close> without one.
\<close>

theorem get_starting_timestamp_cases_witness:
  "snd (get_starting_timestamp demo_env demo_ts_stream None (resumed_world ''updated_at''))
     = Inr (Some 800) \<and>
   snd (get_starting_timestamp demo_env demo_ts_stream None (resumed_world ''id''))
     = Inr (Some 500) \<and>
   snd (get_starting_timestamp demo_env (demo_ts_stream\<lparr>priv_config := []\<rparr>) None (resumed_world ''id''))
     = Inr None"
proof -
  have ts: "is_timestamp_replication_key demo_env demo_ts_stream = Inr True"
    "is_timestamp_replication_key demo_env (demo_ts_stream\<lparr>priv_config := []\<rparr>) = Inr True"
    by (simp_all add: is_timestamp_replication_key_def replication_key_def schema_def
          demo_env_def demo_ts_stream_def demo_stream_def)
  show ?thesis
    using get_starting_timestamp_cases [OF ts(1) refl, of "resumed_world ''updated_at''" None]
      get_starting_timestamp_cases [OF ts(1) refl, of "resumed_world ''id''" None]
      get_starting_timestamp_cases [OF ts(2) refl, of "resumed_world ''id''" None]
    by (simp add: resumed_world_def demo_world_def state_ref_of_def replication_key_def
          config_def demo_ts_stream_def demo_stream_def demo_env_def)
qed

section \<open>The record cap\<close>

lemma tail_ok_append: "tail_ok xs \<Longrightarrow> tail_ok ys \<Longrightarrow> tail_ok (xs @ ys)"
  by (cases "ys = []") (auto simp: tail_ok_def)

lemma stdout_get_replication_key_signpost:
  "stdout (fst (get_replication_key_signpost E s part w)) = stdout w"
  by (simp add: get_replication_key_signpost_def utc_now_def split: sum.splits bool.splits)

lemma stdout_increment_stream_state:
  "stdout (fst (increment_stream_state E s latest_record part w)) = stdout w"
proof -
  let ?w1 = "w\<lparr>tap_state := ensure_entry (tap_state w) (state_ref_of (name s) part)\<rparr>"
  have "stdout (fst (get_replication_key_signpost E s part ?w1)) = stdout w"
    by (simp add: stdout_get_replication_key_signpost)
  then show ?thesis
    by (auto simp: increment_stream_state_def get_stream_or_partition_state_eq
          split: option.splits prod.splits sum.splits)
qed

lemma sync_row_tail:
  assumes "sync_row E s part row_dict n w = (w', res)"
      and "res = Inl MaxRecordsLimitException \<or> (\<exists>n'. res = Inr n')"
  shows "\<exists>ms. stdout w' = stdout w @ ms \<and> tail_ok ms"
proof (cases "case MAX_RECORDS_LIMIT s of None \<Rightarrow> False | Some limit \<Rightarrow> n \<ge> limit")
  case True
  with assms(1) have "w' = w" by (simp add: sync_row_def)
  then show ?thesis by (simp add: tail_ok_def)
next
  case False
  show ?thesis
  proof (cases "flush_due s n")
    case (Inl e)
    with False assms have False
      by (auto simp: sync_row_def flush_due_def split: if_splits)
    then show ?thesis ..
  next
    case (Inr due)
    let ?w1 = "if due then write_state_message w else w"
    show ?thesis
    proof (cases "schema E s")
      case (Inl e)
      with False Inr assms have False
        by (auto simp: sync_row_def write_record_message_def schema_def Let_def
              split: if_splits option.splits)
      then show ?thesis ..
    next
      case sch: (Inr sch)
      obtain w2 popped where wr: "write_record_message E s row_dict ?w1 = (w2, Inr popped)"
        and out2: "\<exists>m. stdout w2 = stdout ?w1 @ [m] \<and> kind_of m = RECORD"
        by (auto simp: write_record_message_def sch utc_now_def Let_def)
      have out3: "stdout (fst (increment_stream_state E s popped part w2)) = stdout w2"
        by (rule stdout_increment_stream_state)
      have "stdout w' = stdout w2"
        using assms(1) False Inr wr out3
        by (auto simp: sync_row_def split: prod.splits sum.splits if_splits)
      with out2 obtain m where "stdout w' = stdout ?w1 @ [m]" "kind_of m = RECORD" by auto
      then show ?thesis
        by (cases due) (auto simp: write_state_message_def tail_ok_def)
    qed
  qed
qed

lemma sync_rows_tail:
  assumes "sync_rows E s part rows n w = (w', res)"
      and "res = Inl MaxRecordsLimitException \<or> (\<exists>n'. res = Inr n')"
  shows "\<exists>ms. stdout w' = stdout w @ ms \<and> tail_ok ms"
  using assms
proof (induction rows arbitrary: n w)
  case Nil
  then show ?case by (auto simp: tail_ok_def)
next
  case (Cons row_dict rest)
  obtain w1 r1 where step: "sync_row E s part row_dict n w = (w1, r1)"
    by (cases "sync_row E s part row_dict n w") auto
  show ?case
  proof (cases r1)
    case (Inl e)
    with Cons.prems step have "w' = w1" "res = Inl e" by auto
    with Cons.prems(2) Inl step show ?thesis
      using sync_row_tail [of E s part row_dict n w w1 r1] by auto
  next
    case (Inr n1)
    with Cons.prems step have rest: "sync_rows E s part rest n1 w1 = (w', res)" by auto
    from step Inr obtain ms1 where ms1: "stdout w1 = stdout w @ ms1" "tail_ok ms1"
      using sync_row_tail [of E s part row_dict n w w1 r1] by auto
    from Cons.IH [OF rest Cons.prems(2)] obtain ms2
      where ms2: "stdout w' = stdout w1 @ ms2" "tail_ok ms2" by auto
    from ms1 ms2 have "stdout w' = stdout w @ (ms1 @ ms2)" "tail_ok (ms1 @ ms2)"
      by (auto intro: tail_ok_append)
    then show ?thesis by blast
  qed
qed

lemma sync_partition_tail:
  assumes "sync_partition E s part n w = (w', res)"
      and "res = Inl MaxRecordsLimitException \<or> (\<exists>n'. res = Inr n')"
  shows "\<exists>ms. stdout w' = stdout w @ ms \<and> tail_ok ms"
proof -
  let ?r = "state_ref_of (name s) part"
  let ?w1 = "w\<lparr>tap_state := ensure_entry (tap_state w) ?r\<rparr>"
  let ?w2 = "?w1\<lparr>tap_state := assign (tap_state ?w1) ?r
                         (reset_state_progress_markers (deref (tap_state ?w1) ?r))\<rparr>"
  obtain w3 r3 where rows: "sync_rows E s part (get_records s part) n ?w2 = (w3, r3)"
    by (cases "sync_rows E s part (get_records s part) n ?w2") auto
  from assms(1) rows have "stdout w' = stdout w3 \<and> (res = r3 \<or> (\<exists>k. res = Inr k \<and> r3 = Inr k))"
    by (auto simp: sync_partition_def get_stream_or_partition_state_eq Let_def split: sum.splits)
  moreover from this assms(2) have "r3 = Inl MaxRecordsLimitException \<or> (\<exists>n'. r3 = Inr n')"
    by auto
  from sync_rows_tail [OF rows this] have "\<exists>ms. stdout w3 = stdout w @ ms \<and> tail_ok ms"
    by simp
  ultimately show ?thesis by simp
qed

lemma sync_partitions_tail:
  assumes "sync_partitions E s parts n w = (w', res)"
      and "res = Inl MaxRecordsLimitException \<or> (\<exists>n'. res = Inr n')"
  shows "\<exists>ms. stdout w' = stdout w @ ms \<and> tail_ok ms"
  using assms
proof (induction parts arbitrary: n w)
  case Nil
  then show ?case by (auto simp: tail_ok_def)
next
  case (Cons part rest)
  obtain w1 r1 where step: "sync_partition E s part n w = (w1, r1)"
    by (cases "sync_partition E s part n w") auto
  show ?case
  proof (cases r1)
    case (Inl e)
    with Cons.prems step have "w' = w1" "res = Inl e" by auto
    with Cons.prems(2) Inl step show ?thesis
      using sync_partition_tail [of E s part n w w1 r1] by auto
  next
    case (Inr n1)
    with Cons.prems step have rest: "sync_partitions E s rest n1 w1 = (w', res)" by auto
    from step Inr obtain ms1 where ms1: "stdout w1 = stdout w @ ms1" "tail_ok ms1"
      using sync_partition_tail [of E s part n w w1 r1] by auto
    from Cons.IH [OF rest Cons.prems(2)] obtain ms2
      where ms2: "stdout w' = stdout w1 @ ms2" "tail_ok ms2" by auto
    from ms1 ms2 have "stdout w' = stdout w @ (ms1 @ ms2)" "tail_ok (ms1 @ ms2)"
      by (auto intro: tail_ok_append)
    then show ?thesis by blast
  qed
qed

text \<open>
  C4, as the code has it: when the record cap is hit, \<open>MaxRecordsLimitException\<close> leaves
  \<open>_sync_records\<close> at once and nothing more is written. What the sync has written is empty
  or ends with a record message: no final state message follows the last record.
\<close>

theorem record_cap_skips_final_state:
  assumes "snd (sync_records E s part w) = Inl MaxRecordsLimitException"
  shows "\<exists>ms. stdout (fst (sync_records E s part w)) = stdout w @ ms \<and>
              (ms = [] \<or> kind_of (last ms) = RECORD)"
proof -
  obtain w1 r1 where parts: "sync_partitions E s (partitions_to_sync s part w) 0 w = (w1, r1)"
    by (cases "sync_partitions E s (partitions_to_sync s part w) 0 w") auto
  with assms have "r1 = Inl MaxRecordsLimitException" "fst (sync_records E s part w) = w1"
    by (auto simp: sync_records_def split: sum.splits)
  with sync_partitions_tail [OF parts] show ?thesis
    by (simp add: tail_ok_def)
qed


text \<open>The stream capped at one record, over the two partitions.\<close>

theorem record_cap_skips_final_state_witness:
  "snd (sync_records demo_env capped_stream None partitioned_world)
     = Inl MaxRecordsLimitException \<and>
   (\<exists>ms. stdout (fst (sync_records demo_env capped_stream None partitioned_world))
            = stdout partitioned_world @ ms \<and>
         (ms = [] \<or> kind_of (last ms) = RECORD))"
proof -
  have h: "snd (sync_records demo_env capped_stream None partitioned_world)
             = Inl MaxRecordsLimitException"
    by code_simp
  from record_cap_skips_final_state [OF h] h show ?thesis by blast
qed

text \<open>
  C4 as stated fails: capped at one record, the sync of two partitions finalizes the first
  partition (its bookmark is promoted to 1 in the state tree), hits the cap on the first row
  of the second, and has then written the one record message and no state message.
\<close>

theorem record_cap_no_final_state_counterexample:
  "(case sync_records demo_env capped_stream None partitioned_world of
      (w, res) \<Rightarrow>
        res = Inl MaxRecordsLimitException \<and>
        map kind_of (stdout w) = [RECORD] \<and>
        deref (tap_state w) (Partition_entry ''orders'' region_a) =
          \<lparr>bm_replication_key = Some ''id'', bm_replication_key_value = Some (PInt 1),
           bm_progress_markers = None\<rparr>)"
  by code_simp

section \<open>Full-table streams\<close>

lemma keeps_bookmarks_refl: "keeps_bookmarks T T"
  by (simp add: keeps_bookmarks_def)

lemma keeps_bookmarks_trans:
  "keeps_bookmarks T1 T2 \<Longrightarrow> keeps_bookmarks T2 T3 \<Longrightarrow> keeps_bookmarks T1 T3"
  unfolding keeps_bookmarks_def
proof (intro allI)
  fix r
  assume a: "\<forall>r. bm_replication_key (deref T2 r) = bm_replication_key (deref T1 r) \<and>
          bm_replication_key_value (deref T2 r) = bm_replication_key_value (deref T1 r) \<and>
          (bm_progress_markers (deref T2 r) = None \<or>
           bm_progress_markers (deref T2 r) = bm_progress_markers (deref T1 r))"
    and b: "\<forall>r. bm_replication_key (deref T3 r) = bm_replication_key (deref T2 r) \<and>
          bm_replication_key_value (deref T3 r) = bm_replication_key_value (deref T2 r) \<and>
          (bm_progress_markers (deref T3 r) = None \<or>
           bm_progress_markers (deref T3 r) = bm_progress_markers (deref T2 r))"
  from a [rule_format, of r] b [rule_format, of r]
  show "bm_replication_key (deref T3 r) = bm_replication_key (deref T1 r) \<and>
          bm_replication_key_value (deref T3 r) = bm_replication_key_value (deref T1 r) \<and>
          (bm_progress_markers (deref T3 r) = None \<or>
           bm_progress_markers (deref T3 r) = bm_progress_markers (deref T1 r))"
    by auto
qed

lemma records_written_append:
  "records_written (xs @ ys) = records_written xs @ records_written ys"
  by (induction xs rule: records_written.induct) auto

lemma increment_stream_state_full_table:
  assumes "replication_method s = ''FULL_TABLE''"
  shows "increment_stream_state E s latest_record part w =
           (w\<lparr>tap_state := ensure_entry (tap_state w) (state_ref_of (name s) part)\<rparr>, Inr ())"
  using assms
  by (simp add: increment_stream_state_def get_stream_or_partition_state_eq
        REPLICATION_INCREMENTAL_def REPLICATION_LOG_BASED_def)

lemma sync_row_full_table:
  assumes "replication_method s = ''FULL_TABLE''"
      and "schema E s = Inr sch"
      and "STATE_MSG_FREQUENCY s \<noteq> 0"
      and "case MAX_RECORDS_LIMIT s of None \<Rightarrow> True | Some limit \<Rightarrow> n < limit"
  shows "\<exists>w'. sync_row E s part row_dict n w = (w', Inr (n + 1)) \<and>
              records_written (stdout w') = records_written (stdout w) @ [emitted_row E s sch row_dict] \<and>
              (\<forall>r. deref (tap_state w') r = deref (tap_state w) r)"
proof -
  from assms(4) have cap: "\<not> (case MAX_RECORDS_LIMIT s of None \<Rightarrow> False | Some limit \<Rightarrow> n \<ge> limit)"
    by (auto split: option.splits)
  have "flush_due s n = Inr (n \<noteq> 0 \<and> (n - 1) mod STATE_MSG_FREQUENCY s = 0)"
    using assms(3) by (simp add: flush_due_def)
  then obtain due where due: "flush_due s n = Inr due" by blast
  show ?thesis
    using cap due assms(2)
    by (cases due)
       (simp_all add: sync_row_def write_record_message_def write_state_message_def utc_now_def
          increment_stream_state_full_table [OF assms(1)] deref_ensure_entry
          records_written_append emitted_row_def Let_def)
qed

lemma sync_rows_full_table:
  assumes "replication_method s = ''FULL_TABLE''"
      and "schema E s = Inr sch"
      and "STATE_MSG_FREQUENCY s \<noteq> 0"
      and "case MAX_RECORDS_LIMIT s of None \<Rightarrow> True | Some limit \<Rightarrow> n + int (length rows) \<le> limit"
  shows "\<exists>w'. sync_rows E s part rows n w = (w', Inr (n + int (length rows))) \<and>
              records_written (stdout w') =
                records_written (stdout w) @ map (emitted_row E s sch) rows \<and>
              (\<forall>r. deref (tap_state w') r = deref (tap_state w) r)"
  using assms(4)
proof (induction rows arbitrary: n w)
  case Nil
  then show ?case by simp
next
  case (Cons row_dict rest)
  from Cons.prems have c1: "case MAX_RECORDS_LIMIT s of None \<Rightarrow> True | Some limit \<Rightarrow> n < limit"
    and c2: "case MAX_RECORDS_LIMIT s of None \<Rightarrow> True
             | Some limit \<Rightarrow> (n + 1) + int (length rest) \<le> limit"
    by (auto split: option.splits)
  from sync_row_full_table [OF assms(1-3) c1, of part row_dict w] obtain w1
    where step: "sync_row E s part row_dict n w = (w1, Inr (n + 1))"
      and out1: "records_written (stdout w1) =
                   records_written (stdout w) @ [emitted_row E s sch row_dict]"
      and st1: "\<forall>r. deref (tap_state w1) r = deref (tap_state w) r"
    by blast
  from Cons.IH [OF c2, of w1] obtain w'
    where rest: "sync_rows E s part rest (n + 1) w1 = (w', Inr ((n + 1) + int (length rest)))"
      and out2: "records_written (stdout w') =
                   records_written (stdout w1) @ map (emitted_row E s sch) rest"
      and st2: "\<forall>r. deref (tap_state w') r = deref (tap_state w1) r"
    by blast
  have "sync_rows E s part (row_dict # rest) n w
          = (w', Inr (n + int (length (row_dict # rest))))"
    using step rest by (simp add: add.assoc)
  moreover have "records_written (stdout w') =
                   records_written (stdout w) @ map (emitted_row E s sch) (row_dict # rest)"
    using out1 out2 by simp
  moreover have "\<forall>r. deref (tap_state w') r = deref (tap_state w) r"
    using st1 st2 by simp
  ultimately show ?case by blast
qed

lemma sync_partition_full_table:
  assumes "replication_method s = ''FULL_TABLE''"
      and "schema E s = Inr sch"
      and "STATE_MSG_FREQUENCY s \<noteq> 0"
      and "case MAX_RECORDS_LIMIT s of None \<Rightarrow> True
           | Some limit \<Rightarrow> n + int (length (get_records s part)) \<le> limit"
  shows "\<exists>w'. sync_partition E s part n w = (w', Inr (n + int (length (get_records s part)))) \<and>
              records_written (stdout w') =
                records_written (stdout w) @ map (emitted_row E s sch) (get_records s part) \<and>
              keeps_bookmarks (tap_state w) (tap_state w')"
proof -
  let ?r = "state_ref_of (name s) part"
  let ?w1 = "w\<lparr>tap_state := ensure_entry (tap_state w) ?r\<rparr>"
  let ?w2 = "?w1\<lparr>tap_state := assign (tap_state ?w1) ?r
                         (reset_state_progress_markers (deref (tap_state ?w1) ?r))\<rparr>"
  from sync_rows_full_table [OF assms, of part ?w2] obtain w3
    where rows: "sync_rows E s part (get_records s part) n ?w2
                   = (w3, Inr (n + int (length (get_records s part))))"
      and out: "records_written (stdout w3) =
                  records_written (stdout ?w2) @ map (emitted_row E s sch) (get_records s part)"
      and st: "\<forall>r. deref (tap_state w3) r = deref (tap_state ?w2) r"
    by blast
  let ?w4 = "w3\<lparr>tap_state := assign (tap_state w3) ?r
                        (finalize_state_progress_markers (deref (tap_state w3) ?r))\<rparr>"
  have eq: "sync_partition E s part n w = (?w4, Inr (n + int (length (get_records s part))))"
    using rows by (simp add: sync_partition_def get_stream_or_partition_state_eq Let_def)
  have "keeps_bookmarks (tap_state w) (tap_state ?w4)"
    using st
    by (simp add: keeps_bookmarks_def deref_assign deref_ensure_entry
          reset_state_progress_markers_def finalize_state_progress_markers_def)
  with eq out show ?thesis by simp
qed

lemma sync_partitions_full_table:
  assumes "replication_method s = ''FULL_TABLE''"
      and "schema E s = Inr sch"
      and "STATE_MSG_FREQUENCY s \<noteq> 0"
      and "case MAX_RECORDS_LIMIT s of None \<Rightarrow> True
           | Some limit \<Rightarrow> n + int (length (concat (map (get_records s) parts))) \<le> limit"
  shows "\<exists>w'. sync_partitions E s parts n w
                 = (w', Inr (n + int (length (concat (map (get_records s) parts))))) \<and>
              records_written (stdout w') =
                records_written (stdout w)
                @ map (emitted_row E s sch) (concat (map (get_records s) parts)) \<and>
              keeps_bookmarks (tap_state w) (tap_state w')"
  using assms(4)
proof (induction parts arbitrary: n w)
  case Nil
  then show ?case by (simp add: keeps_bookmarks_refl)
next
  case (Cons part rest)
  let ?k = "int (length (get_records s part))"
  from Cons.prems have c1: "case MAX_RECORDS_LIMIT s of None \<Rightarrow> True
                            | Some limit \<Rightarrow> n + ?k \<le> limit"
    and c2: "case MAX_RECORDS_LIMIT s of None \<Rightarrow> True
             | Some limit \<Rightarrow> (n + ?k) + int (length (concat (map (get_records s) rest))) \<le> limit"
    by (auto split: option.splits)
  from sync_partition_full_table [OF assms(1-3) c1, of w] obtain w1
    where step: "sync_partition E s part n w = (w1, Inr (n + ?k))"
      and out1: "records_written (stdout w1) =
                   records_written (stdout w) @ map (emitted_row E s sch) (get_records s part)"
      and st1: "keeps_bookmarks (tap_state w) (tap_state w1)"
    by blast
  from Cons.IH [OF c2, of w1] obtain w'
    where rest: "sync_partitions E s rest (n + ?k) w1
                   = (w', Inr ((n + ?k) + int (length (concat (map (get_records s) rest)))))"
      and out2: "records_written (stdout w') =
                   records_written (stdout w1)
                   @ map (emitted_row E s sch) (concat (map (get_records s) rest))"
      and st2: "keeps_bookmarks (tap_state w1) (tap_state w')"
    by blast
  have "sync_partitions E s (part # rest) n w
          = (w', Inr (n + int (length (concat (map (get_records s) (part # rest))))))"
    using step rest by (simp add: add.assoc)
  moreover have "records_written (stdout w') =
                   records_written (stdout w)
                   @ map (emitted_row E s sch) (concat (map (get_records s) (part # rest)))"
    using out1 out2 by simp
  moreover have "keeps_bookmarks (tap_state w) (tap_state w')"
    using st1 st2 by (rule keeps_bookmarks_trans)
  ultimately show ?case by blast
qed

lemma sync_records_full_table:
  assumes "replication_method s = ''FULL_TABLE''"
      and "schema E s = Inr sch"
      and "STATE_MSG_FREQUENCY s \<noteq> 0"
      and "rows = concat (map (get_records s) (partitions_to_sync s part w))"
      and "case MAX_RECORDS_LIMIT s of None \<Rightarrow> True | Some limit \<Rightarrow> int (length rows) \<le> limit"
  shows "\<exists>w'. sync_records E s part w = (w', Inr ()) \<and>
              records_written (stdout w') =
                records_written (stdout w) @ map (emitted_row E s sch) rows \<and>
              keeps_bookmarks (tap_state w) (tap_state w')"
proof -
  let ?parts = "partitions_to_sync s part w"
  from assms(4,5)
  have cap: "case MAX_RECORDS_LIMIT s of None \<Rightarrow> True
             | Some limit \<Rightarrow> 0 + int (length (concat (map (get_records s) ?parts))) \<le> limit"
    by (cases "MAX_RECORDS_LIMIT s") simp_all
  from sync_partitions_full_table [OF assms(1-3) cap, of w] obtain w1
    where parts: "sync_partitions E s ?parts 0 w
                    = (w1, Inr (0 + int (length (concat (map (get_records s) ?parts)))))"
      and out: "records_written (stdout w1) =
                  records_written (stdout w)
                  @ map (emitted_row E s sch) (concat (map (get_records s) ?parts))"
      and st: "keeps_bookmarks (tap_state w) (tap_state w1)"
    by blast
  let ?w2 = "write_state_message
               (w1\<lparr>logged := logged w1 @ [Info_completed (name s) (int (length rows))]\<rparr>)"
  have "sync_records E s part w = (?w2, Inr ())"
    using parts assms(4) by (simp add: sync_records_def)
  moreover have "records_written (stdout ?w2) =
                   records_written (stdout w) @ map (emitted_row E s sch) rows"
    using out assms(4) by (simp add: write_state_message_def records_written_append)
  moreover have "keeps_bookmarks (tap_state w) (tap_state ?w2)"
    using st by (simp add: write_state_message_def)
  ultimately show ?thesis by blast
qed

text \<open>
  C7: for a stream whose replication method is \<open>FULL_TABLE\<close>, \<open>_increment_stream_state\<close> updates
  no bookmark for any record, and a sync (with a readable schema, a nonzero state message
  frequency and no record cap below the number of rows) completes with one record message
  for every row of every partition, in order, and with the replication key and value of
  every state entry as before: an entry that was empty is empty afterwards.
\<close>

theorem full_table_sync_leaves_bookmarks:
  assumes "replication_method s = ''FULL_TABLE''"
      and "schema E s = Inr sch"
      and "STATE_MSG_FREQUENCY s \<noteq> 0"
      and "rows = concat (map (get_records s) (partitions_to_sync s part w))"
      and "case MAX_RECORDS_LIMIT s of None \<Rightarrow> True | Some limit \<Rightarrow> int (length rows) \<le> limit"
  shows "(\<forall>latest_record p w0 r.
            snd (increment_stream_state E s latest_record p w0) = Inr () \<and>
            deref (tap_state (fst (increment_stream_state E s latest_record p w0))) r
              = deref (tap_state w0) r) \<and>
         snd (sync_records E s part w) = Inr () \<and>
         records_written (stdout (fst (sync_records E s part w))) =
           records_written (stdout w)
           @ map (\<lambda>row_dict.
                    (name s, conform_record_data_types E (name s)
                               (pop_deselected_record_properties E (name s) row_dict) sch))
               rows \<and>
         (\<forall>r. bm_replication_key (deref (tap_state (fst (sync_records E s part w))) r)
                = bm_replication_key (deref (tap_state w) r) \<and>
              bm_replication_key_value (deref (tap_state (fst (sync_records E s part w))) r)
                = bm_replication_key_value (deref (tap_state w) r)) \<and>
         (\<forall>r. deref (tap_state w) r = blank_bookmark \<longrightarrow>
              deref (tap_state (fst (sync_records E s part w))) r = blank_bookmark)"
proof -
  have inc: "\<forall>latest_record p w0 r.
            snd (increment_stream_state E s latest_record p w0) = Inr () \<and>
            deref (tap_state (fst (increment_stream_state E s latest_record p w0))) r
              = deref (tap_state w0) r"
    by (simp add: increment_stream_state_full_table [OF assms(1)] deref_ensure_entry)
  from sync_records_full_table [OF assms] obtain w'
    where run: "sync_records E s part w = (w', Inr ())"
      and out: "records_written (stdout w') =
                  records_written (stdout w) @ map (emitted_row E s sch) rows"
      and st: "keeps_bookmarks (tap_state w) (tap_state w')"
    by blast
  have keys: "\<forall>r. bm_replication_key (deref (tap_state w') r)
                = bm_replication_key (deref (tap_state w) r) \<and>
              bm_replication_key_value (deref (tap_state w') r)
                = bm_replication_key_value (deref (tap_state w) r)"
    using st by (simp add: keeps_bookmarks_def)
  have blank: "deref (tap_state w') r = blank_bookmark"
    if "deref (tap_state w) r = blank_bookmark" for r
  proof -
    from st have "bm_replication_key (deref (tap_state w') r) = None"
      "bm_replication_key_value (deref (tap_state w') r) = None"
      "bm_progress_markers (deref (tap_state w') r) = None"
      using that unfolding keeps_bookmarks_def blank_bookmark_def
      by (metis bookmark.select_convs(1), metis bookmark.select_convs(2),
          metis bookmark.select_convs(3))
    then show ?thesis
      by (cases "deref (tap_state w') r") (simp add: blank_bookmark_def)
  qed
  have emitted: "emitted_row E s sch =
                   (\<lambda>row_dict.
                      (name s, conform_record_data_types E (name s)
                                 (pop_deselected_record_properties E (name s) row_dict) sch))"
    by (rule ext) (simp add: emitted_row_def)
  show ?thesis
    using inc run out keys blank unfolding emitted by simp
qed

text \<open>Seven rows of \<open>orders\<close> without a replication key, on a fresh run.\<close>

theorem full_table_sync_leaves_bookmarks_witness:
  "snd (sync_records demo_env full_table_stream None demo_world) = Inr () \<and>
   records_written (stdout (fst (sync_records demo_env full_table_stream None demo_world)))
     = map (\<lambda>row_dict. (''orders'', row_dict)) (rows_with_ids [1, 2, 3, 4, 5, 6, 7]) \<and>
   deref (tap_state (fst (sync_records demo_env full_table_stream None demo_world)))
     (Stream_entry ''orders'') = blank_bookmark"
proof -
  have m: "replication_method full_table_stream = ''FULL_TABLE''"
    by (simp add: replication_method_def replication_key_def REPLICATION_FULL_TABLE_def
          full_table_stream_def demo_stream_def)
  have sch: "schema demo_env full_table_stream = Inr (the (priv_schema demo_stream))"
    by (simp add: schema_def full_table_stream_def demo_stream_def)
  have f: "STATE_MSG_FREQUENCY full_table_stream \<noteq> 0"
    by (simp add: full_table_stream_def demo_stream_def)
  have rows: "rows_with_ids [1, 2, 3, 4, 5, 6, 7] =
                concat (map (get_records full_table_stream)
                          (partitions_to_sync full_table_stream None demo_world))"
    by (simp add: partitions_to_sync_def partitions_def get_state_partitions_list_def
          demo_world_def full_table_stream_def)
  have cap: "case MAX_RECORDS_LIMIT full_table_stream of None \<Rightarrow> True
             | Some limit \<Rightarrow> int (length (rows_with_ids [1, 2, 3, 4, 5, 6, 7])) \<le> limit"
    by (simp add: full_table_stream_def demo_stream_def)
  have b: "deref (tap_state demo_world) (Stream_entry ''orders'') = blank_bookmark"
    by (simp add: demo_world_def)
  note T = full_table_sync_leaves_bookmarks [OF m sch f rows cap]
  have "records_written (stdout (fst (sync_records demo_env full_table_stream None demo_world)))
     = map (\<lambda>row_dict. (''orders'', row_dict)) (rows_with_ids [1, 2, 3, 4, 5, 6, 7])"
    using T [THEN conjunct2, THEN conjunct2, THEN conjunct1]
    by (simp add: demo_world_def demo_env_def full_table_stream_def demo_stream_def)
  moreover have "deref (tap_state (fst (sync_records demo_env full_table_stream None demo_world)))
     (Stream_entry ''orders'') = blank_bookmark"
    using T [THEN conjunct2, THEN conjunct2, THEN conjunct2, THEN conjunct2, rule_format, OF b] .
  moreover have "snd (sync_records demo_env full_table_stream None demo_world) = Inr ()"
    using T [THEN conjunct2, THEN conjunct1] .
  ultimately show ?thesis by blast
qed

section \<open>The cadence of state messages\<close>

lemma sync_row_ok:
  assumes "sync_row E s part row_dict n w = (w', Inr n')"
  shows "n' = n + 1 \<and>
         (\<exists>ms. stdout w' = stdout w @ ms \<and>
               map kind_of ms =
                 (if n \<noteq> 0 \<and> (n - 1) mod STATE_MSG_FREQUENCY s = 0 then [STATE] else [])
                 @ [RECORD])"
proof -
  from assms have cap: "\<not> (case MAX_RECORDS_LIMIT s of None \<Rightarrow> False | Some limit \<Rightarrow> n \<ge> limit)"
    by (auto simp: sync_row_def split: if_splits)
  from assms cap obtain due where due: "flush_due s n = Inr due"
    by (cases "flush_due s n") (auto simp: sync_row_def)
  then have due_eq: "due = (n \<noteq> 0 \<and> (n - 1) mod STATE_MSG_FREQUENCY s = 0)"
    by (auto simp: flush_due_def split: if_splits)
  let ?w1 = "if due then write_state_message w else w"
  from assms cap due obtain sch where sch: "schema E s = Inr sch"
    by (cases "schema E s") (auto simp: sync_row_def write_record_message_def)
  obtain w2 popped where wr: "write_record_message E s row_dict ?w1 = (w2, Inr popped)"
    and out2: "\<exists>m. stdout w2 = stdout ?w1 @ [m] \<and> kind_of m = RECORD"
    by (auto simp: write_record_message_def sch utc_now_def Let_def)
  have out3: "stdout (fst (increment_stream_state E s popped part w2)) = stdout w2"
    by (rule stdout_increment_stream_state)
  have "stdout w' = stdout w2 \<and> n' = n + 1"
    using assms cap due wr out3
    by (auto simp: sync_row_def split: prod.splits sum.splits if_splits)
  with out2 obtain m where m: "stdout w' = stdout ?w1 @ [m]" "kind_of m = RECORD" "n' = n + 1"
    by auto
  show ?thesis
  proof (cases due)
    case True
    with m have "stdout w' = stdout w @ [StateMessage (tap_state w), m]"
      by (simp add: write_state_message_def)
    with m True due_eq show ?thesis by auto
  next
    case False
    with m have "stdout w' = stdout w @ [m]" by simp
    with m False due_eq show ?thesis by auto
  qed
qed

lemma sync_rows_ok:
  assumes "sync_rows E s part rows n w = (w', Inr n')"
  shows "n' = n + int (length rows) \<and>
         (\<exists>ms. stdout w' = stdout w @ ms \<and>
               map kind_of ms = cadence (STATE_MSG_FREQUENCY s) n (length rows))"
  using assms
proof (induction rows arbitrary: n w)
  case Nil
  then show ?case by simp
next
  case (Cons row_dict rest)
  from Cons.prems obtain w1 n1 where step: "sync_row E s part row_dict n w = (w1, Inr n1)"
    and rest: "sync_rows E s part rest n1 w1 = (w', Inr n')"
    by (auto split: prod.splits sum.splits)
  from sync_row_ok [OF step] obtain ms1 where n1: "n1 = n + 1"
    and ms1: "stdout w1 = stdout w @ ms1"
      "map kind_of ms1 =
         (if n \<noteq> 0 \<and> (n - 1) mod STATE_MSG_FREQUENCY s = 0 then [STATE] else []) @ [RECORD]"
    by auto
  from Cons.IH [OF rest] obtain ms2 where n': "n' = n1 + int (length rest)"
    and ms2: "stdout w' = stdout w1 @ ms2"
      "map kind_of ms2 = cadence (STATE_MSG_FREQUENCY s) n1 (length rest)"
    by auto
  have "stdout w' = stdout w @ (ms1 @ ms2)" using ms1 ms2 by simp
  moreover have "map kind_of (ms1 @ ms2) =
                   cadence (STATE_MSG_FREQUENCY s) n (length (row_dict # rest))"
    using ms1 ms2 n1 by simp
  moreover have "n' = n + int (length (row_dict # rest))" using n1 n' by simp
  ultimately show ?case by blast
qed

lemma sync_partition_ok:
  assumes "sync_partition E s part n w = (w', Inr n')"
  shows "n' = n + int (length (get_records s part)) \<and>
         (\<exists>ms. stdout w' = stdout w @ ms \<and>
               map kind_of ms = cadence (STATE_MSG_FREQUENCY s) n (length (get_records s part)))"
proof -
  let ?r = "state_ref_of (name s) part"
  let ?w1 = "w\<lparr>tap_state := ensure_entry (tap_state w) ?r\<rparr>"
  let ?w2 = "?w1\<lparr>tap_state := assign (tap_state ?w1) ?r
                         (reset_state_progress_markers (deref (tap_state ?w1) ?r))\<rparr>"
  from assms obtain w3 where rows: "sync_rows E s part (get_records s part) n ?w2 = (w3, Inr n')"
    and out: "stdout w' = stdout w3"
    by (auto simp: sync_partition_def get_stream_or_partition_state_eq Let_def
          split: prod.splits sum.splits)
  from sync_rows_ok [OF rows] out show ?thesis by simp
qed

lemma sync_records_ok_kinds:
  assumes "partitions_to_sync s part w = [p]"
      and "snd (sync_records E s part w) = Inr ()"
  shows "\<exists>ms. stdout (fst (sync_records E s part w)) = stdout w @ ms \<and>
              map kind_of ms =
                cadence (STATE_MSG_FREQUENCY s) 0 (length (get_records s p)) @ [STATE]"
proof -
  from assms obtain w1 n1 where part: "sync_partition E s p 0 w = (w1, Inr n1)"
    and final: "fst (sync_records E s part w) =
                  write_state_message (w1\<lparr>logged := logged w1 @ [Info_completed (name s) n1]\<rparr>)"
    by (auto simp: sync_records_def split: prod.splits sum.splits)
  from sync_partition_ok [OF part] obtain ms
    where ms: "stdout w1 = stdout w @ ms"
      "map kind_of ms = cadence (STATE_MSG_FREQUENCY s) 0 (length (get_records s p))"
    by auto
  from ms final
  have "stdout (fst (sync_records E s part w)) = stdout w @ (ms @ [StateMessage (tap_state w1)])"
    "map kind_of (ms @ [StateMessage (tap_state w1)]) =
       cadence (STATE_MSG_FREQUENCY s) 0 (length (get_records s p)) @ [STATE]"
    by (simp_all add: write_state_message_def)
  then show ?thesis by blast
qed

lemma cadence_three_of_seven:
  "cadence 3 0 7 = [RECORD, STATE, RECORD, RECORD, RECORD, STATE, RECORD, RECORD, RECORD]"
  by (simp add: eval_nat_numeral)

lemma full_table_stream_run:
  "partitions_to_sync full_table_stream None demo_world = [None] \<and>
   length (get_records full_table_stream None) = 7 \<and>
   STATE_MSG_FREQUENCY full_table_stream = 3 \<and>
   snd (sync_records demo_env full_table_stream None demo_world) = Inr ()"
proof -
  have m: "replication_method full_table_stream = ''FULL_TABLE''"
    by (simp add: replication_method_def replication_key_def REPLICATION_FULL_TABLE_def
          full_table_stream_def demo_stream_def)
  have sch: "schema demo_env full_table_stream = Inr (the (priv_schema demo_stream))"
    by (simp add: schema_def full_table_stream_def demo_stream_def)
  have f: "STATE_MSG_FREQUENCY full_table_stream \<noteq> 0"
    by (simp add: full_table_stream_def demo_stream_def)
  have p: "partitions_to_sync full_table_stream None demo_world = [None]"
    by (simp add: partitions_to_sync_def partitions_def get_state_partitions_list_def
          demo_world_def)
  have cap: "case MAX_RECORDS_LIMIT full_table_stream of None \<Rightarrow> True
             | Some limit \<Rightarrow>
                 int (length (concat (map (get_records full_table_stream)
                        (partitions_to_sync full_table_stream None demo_world)))) \<le> limit"
    by (simp add: full_table_stream_def demo_stream_def)
  from sync_records_full_table [OF m sch f refl cap]
  have "snd (sync_records demo_env full_table_stream None demo_world) = Inr ()"
    by auto
  with p show ?thesis
    by (simp add: full_table_stream_def demo_stream_def rows_with_ids_def)
qed

text \<open>
  C3, as the code has it: with state message frequency 3 and 7 records in one partition, a
  sync that completes writes exactly 2 intermediate state messages and one final state
  message after the last record. The intermediate ones come before the 2nd and before the
  5th record (\<open>rows_sent\<close> 1 and 4): the first record triggers no flush, the second does.
\<close>

theorem flush_cadence_three_of_seven:
  assumes "STATE_MSG_FREQUENCY s = 3"
      and "partitions_to_sync s part w = [p]"
      and "length (get_records s p) = 7"
      and "snd (sync_records E s part w) = Inr ()"
  shows "\<exists>ms. stdout (fst (sync_records E s part w)) = stdout w @ ms \<and>
              map kind_of ms =
                [RECORD, STATE, RECORD, RECORD, RECORD, STATE, RECORD, RECORD, RECORD, STATE]"
  using sync_records_ok_kinds [OF assms(2,4)] assms(1,3)
  by (simp add: cadence_three_of_seven)

text \<open>Seven rows of \<open>orders\<close> at frequency 3, on a fresh run.\<close>

theorem flush_cadence_three_of_seven_witness:
  "snd (sync_records demo_env full_table_stream None demo_world) = Inr () \<and>
   (\<exists>ms. stdout (fst (sync_records demo_env full_table_stream None demo_world))
            = stdout demo_world @ ms \<and>
         map kind_of ms =
           [RECORD, STATE, RECORD, RECORD, RECORD, STATE, RECORD, RECORD, RECORD, STATE])"
proof -
  note r = full_table_stream_run
  from flush_cadence_three_of_seven [of full_table_stream None demo_world None demo_env] r
  show ?thesis by blast
qed

text \<open>
  C3 as stated fails: the claim puts the two intermediate state messages at record indices
  3 and 6, that is after three and after six records. The run of seven rows at frequency 3
  writes them after one and after four records.
\<close>

theorem flush_positions_counterexample:
  "map kind_of (stdout (fst (sync_records demo_env full_table_stream None demo_world))) =
     [RECORD, STATE, RECORD, RECORD, RECORD, STATE, RECORD, RECORD, RECORD, STATE] \<and>
   map kind_of (stdout (fst (sync_records demo_env full_table_stream None demo_world))) \<noteq>
     [RECORD, RECORD, RECORD, STATE, RECORD, RECORD, RECORD, STATE, RECORD, STATE]"
proof -
  note r = full_table_stream_run
  from sync_records_ok_kinds [of full_table_stream None demo_world None demo_env] r
  obtain ms where "stdout (fst (sync_records demo_env full_table_stream None demo_world))
                     = stdout demo_world @ ms"
    and "map kind_of ms = cadence 3 0 7 @ [STATE]"
    by auto
  then have "map kind_of (stdout (fst (sync_records demo_env full_table_stream None demo_world)))
               = [RECORD, STATE, RECORD, RECORD, RECORD, STATE, RECORD, RECORD, RECORD, STATE]"
    by (simp add: cadence_three_of_seven demo_world_def)
  then show ?thesis by simp
qed

section \<open>Incremental streams: one row\<close>

lemma increment_stream_state_incremental:
  assumes "replication_method s = ''INCREMENTAL'' \<or> replication_method s = ''LOG_BASED''"
      and "replication_key s = Some rk"
      and "is_timestamp_replication_key E s = Inr ts"
      and "latest_record \<noteq> []"
      and "w1 = w\<lparr>tap_state := ensure_entry (tap_state w) (state_ref_of (name s) part)\<rparr>"
      and "w2 = (if ts then w1\<lparr>clock_reads := Suc (clock_reads w)\<rparr> else w1)"
      and "signpost = (if ts then Some (PTime (wall_clock E (clock_reads w))) else None)"
  shows "increment_stream_state E s latest_record part w =
           (case increment_state (deref (tap_state w) (state_ref_of (name s) part)) rk signpost
                   latest_record (is_sorted s) of
              Inl e \<Rightarrow> (w2, Inl e)
            | Inr b \<Rightarrow>
                (w2\<lparr>tap_state := assign (tap_state w2) (state_ref_of (name s) part) b\<rparr>, Inr ()))"
  using assms
  by (cases ts)
     (auto simp: increment_stream_state_def get_stream_or_partition_state_eq
        get_replication_key_signpost_def utc_now_def deref_ensure_entry
        REPLICATION_INCREMENTAL_def REPLICATION_LOG_BASED_def split: sum.splits)

lemma length_records_written_append:
  "length (records_written (xs @ ys)) = length (records_written xs) + length (records_written ys)"
  by (simp add: records_written_append)

lemma sync_row_incremental:
  assumes "replication_method s = ''INCREMENTAL'' \<or> replication_method s = ''LOG_BASED''"
      and "replication_key s = Some rk"
      and "is_timestamp_replication_key E s = Inr ts"
      and "schema E s = Inr sch"
      and "flush_due s n = Inr due"
      and "case MAX_RECORDS_LIMIT s of None \<Rightarrow> True | Some limit \<Rightarrow> n < limit"
      and "popped = pop_deselected_record_properties E (name s) row_dict"
      and "popped \<noteq> []"
      and "signpost = (if ts then Some (PTime (wall_clock E (Suc (clock_reads w)))) else None)"
      and "inc = increment_state (deref (tap_state w) (state_ref_of (name s) part)) rk signpost
                   popped (is_sorted s)"
  shows "\<exists>w'. sync_row E s part row_dict n w
                 = (w', case inc of Inl ex \<Rightarrow> Inl ex | Inr b \<Rightarrow> Inr (n + 1)) \<and>
              stdout w' =
                stdout w @ (if due then [StateMessage (tap_state w)] else [])
                @ [RecordMessage (name s) (conform_record_data_types E (name s) popped sch)
                     (wall_clock E (clock_reads w))] \<and>
              logged w' =
                logged w @ (if inc = Inl InvalidStreamSortException
                            then [Error_sorting (n + 1) (if truthy_opt part then part else None)
                                    InvalidStreamSortException]
                            else []) \<and>
              (\<forall>r. deref (tap_state w') r =
                     (case inc of
                        Inl ex \<Rightarrow> deref (tap_state w) r
                      | Inr b \<Rightarrow> if r = state_ref_of (name s) part then b
                                else deref (tap_state w) r))"
proof -
  from assms(6) have cap: "\<not> (case MAX_RECORDS_LIMIT s of None \<Rightarrow> False | Some limit \<Rightarrow> n \<ge> limit)"
    by (auto split: option.splits)
  let ?wa = "if due then write_state_message w else w"
  let ?wb = "?wa\<lparr>clock_reads := Suc (clock_reads ?wa)\<rparr>
               \<lparr>stdout := stdout ?wa @
                  [RecordMessage (name s) (conform_record_data_types E (name s) popped sch)
                     (wall_clock E (clock_reads ?wa))]\<rparr>"
  have wr: "write_record_message E s row_dict ?wa = (?wb, Inr popped)"
    using assms(4,7) by (simp add: write_record_message_def utc_now_def Let_def)
  have obs: "tap_state ?wb = tap_state w" "clock_reads ?wb = Suc (clock_reads w)"
    "logged ?wb = logged w"
    "stdout ?wb = stdout w @ (if due then [StateMessage (tap_state w)] else [])
                @ [RecordMessage (name s) (conform_record_data_types E (name s) popped sch)
                     (wall_clock E (clock_reads w))]"
    by (simp_all add: write_state_message_def)
  note step = increment_stream_state_incremental
                [OF assms(1,2,3,8) refl refl refl, of part ?wb]
  show ?thesis
  proof (cases inc)
    case (Inl ex)
    then show ?thesis
      using cap assms(5,9,10) wr step obs
      by (cases ts) (auto simp: sync_row_def deref_ensure_entry)
  next
    case (Inr b)
    then show ?thesis
      using cap assms(5,9,10) wr step obs
      by (cases ts) (auto simp: sync_row_def deref_ensure_entry deref_assign)
  qed
qed

section \<open>A record beyond the signpost\<close>

lemma increment_state_beyond_ceiling:
  assumes "map_of latest_record rk = Some candidate"
      and "py_lt ceiling candidate = Inr True"
  shows "increment_state state_dict rk (Some ceiling) latest_record sorted_flag = Inr state_dict"
  using assms by (simp add: increment_state_def)

lemma increment_state_within_ceiling:
  assumes "increment_state state_dict rk (Some ceiling) latest_record sorted_flag = Inr b"
  shows "bm_progress_markers b = bm_progress_markers state_dict \<or>
         (\<exists>v. bm_progress_markers b = Some (rk, v) \<and> py_lt ceiling v = Inr False)"
  using assms
  by (auto simp: increment_state_def split: option.splits sum.splits bool.splits if_splits)

text \<open>
  One record, as the code has it: an incremental record whose replication-key value exceeds
  the signpost \<open>_increment_stream_state\<close> fetches for it (for a timestamp key, the clock
  reading taken after the record message's time of extraction) is still written as a record
  message, and no bookmark of the state tree changes.
\<close>

lemma sync_row_beyond_fetched_signpost:
  assumes "replication_method s = ''INCREMENTAL'' \<or> replication_method s = ''LOG_BASED''"
      and "replication_key s = Some rk"
      and "is_timestamp_replication_key E s = Inr True"
      and "schema E s = Inr sch"
      and "flush_due s rows_sent = Inr due"
      and "case MAX_RECORDS_LIMIT s of None \<Rightarrow> True | Some limit \<Rightarrow> rows_sent < limit"
      and "map_of (pop_deselected_record_properties E (name s) row_dict) rk = Some candidate"
      and "ceiling = PTime (wall_clock E (Suc (clock_reads w)))"
      and "py_lt ceiling candidate = Inr True"
  shows "(\<forall>w2. clock_reads w2 = Suc (clock_reads w) \<longrightarrow>
              snd (get_replication_key_signpost E s part w2) = Inr (Some ceiling)) \<and>
         snd (sync_row E s part row_dict rows_sent w) = Inr (rows_sent + 1) \<and>
         records_written (stdout (fst (sync_row E s part row_dict rows_sent w))) =
           records_written (stdout w)
           @ [(name s, conform_record_data_types E (name s)
                         (pop_deselected_record_properties E (name s) row_dict) sch)] \<and>
         (\<forall>r. deref (tap_state (fst (sync_row E s part row_dict rows_sent w))) r
                = deref (tap_state w) r) \<and>
         (\<forall>state_dict latest_record sorted_flag b.
            increment_state state_dict rk (Some ceiling) latest_record sorted_flag = Inr b \<longrightarrow>
            bm_progress_markers b = bm_progress_markers state_dict \<or>
            (\<exists>v. bm_progress_markers b = Some (rk, v) \<and> py_lt ceiling v = Inr False))"
proof -
  let ?popped = "pop_deselected_record_properties E (name s) row_dict"
  let ?ref = "state_ref_of (name s) part"
  have ne: "?popped \<noteq> []" using assms(7) by auto
  have inc: "increment_state (deref (tap_state w) ?ref) rk (Some ceiling) ?popped (is_sorted s)
               = Inr (deref (tap_state w) ?ref)"
    by (rule increment_state_beyond_ceiling [OF assms(7,9)])
  have sp: "Some ceiling = (if True then Some (PTime (wall_clock E (Suc (clock_reads w)))) else None)"
    using assms(8) by simp
  from sync_row_incremental [OF assms(1-6) refl ne sp refl, of part]
  obtain w' where run: "sync_row E s part row_dict rows_sent w = (w', Inr (rows_sent + 1))"
    and out: "stdout w' =
                stdout w @ (if due then [StateMessage (tap_state w)] else [])
                @ [RecordMessage (name s) (conform_record_data_types E (name s) ?popped sch)
                     (wall_clock E (clock_reads w))]"
    and st: "\<forall>r. deref (tap_state w') r = deref (tap_state w) r"
    unfolding inc by auto
  have a: "\<forall>w2. clock_reads w2 = Suc (clock_reads w) \<longrightarrow>
              snd (get_replication_key_signpost E s part w2) = Inr (Some ceiling)"
    using assms(3,8) by (simp add: get_replication_key_signpost_def utc_now_def)
  have b: "records_written (stdout w') =
             records_written (stdout w)
             @ [(name s, conform_record_data_types E (name s) ?popped sch)]"
    using out by (simp add: records_written_append)
  have c: "\<forall>state_dict latest_record sorted_flag b.
            increment_state state_dict rk (Some ceiling) latest_record sorted_flag = Inr b \<longrightarrow>
            bm_progress_markers b = bm_progress_markers state_dict \<or>
            (\<exists>v. bm_progress_markers b = Some (rk, v) \<and> py_lt ceiling v = Inr False)"
    using increment_state_within_ceiling by blast
  show ?thesis
    using a run b st c by simp
qed

text \<open>
  C2 fails on the code: the ceiling of a pass is the signpost of its first call, and the code
  fetches a new one for every record. On a fresh run of \<open>drifting_stream\<close> the clock is read
  for the first record message (1000) and then for the first signpost (1001). The second
  record carries 1002, beyond that signpost; it is written as a record message, is compared
  with the signpost fetched for it (1003), and the sync ends with the bookmark at 1002.
\<close>

theorem bookmark_passes_first_signpost:
  "snd (get_replication_key_signpost demo_env drifting_stream None
          (fst (write_record_message demo_env drifting_stream [(''updated_at'', PTime 900)]
                  demo_world)))
     = Inr (Some (PTime 1001)) \<and>
   py_lt (PTime 1001) (PTime 1002) = Inr True \<and>
   snd (sync_records demo_env drifting_stream None demo_world) = Inr () \<and>
   records_written (stdout (fst (sync_records demo_env drifting_stream None demo_world)))
     = [(''orders'', [(''updated_at'', PTime 900)]), (''orders'', [(''updated_at'', PTime 1002)])] \<and>
   deref (tap_state (fst (sync_records demo_env drifting_stream None demo_world)))
     (Stream_entry ''orders'')
     = \<lparr>bm_replication_key = Some ''updated_at'',
        bm_replication_key_value = Some (PTime 1002), bm_progress_markers = None\<rparr>"
  by code_simp

section \<open>Sorted streams\<close>

lemma increment_state_first:
  assumes "map_of latest_record rk = Some v"
      and "bm_progress_markers state_dict = None"
  shows "increment_state state_dict rk None latest_record sorted_flag
           = Inr (state_dict\<lparr>bm_progress_markers := Some (rk, v)\<rparr>)"
  using assms by (simp add: increment_state_def)

lemma increment_state_int:
  assumes "map_of latest_record rk = Some (PInt v)"
      and "bm_progress_markers state_dict = Some (k, PInt j)"
  shows "increment_state state_dict rk None latest_record sorted_flag
           = (if v < j then (if sorted_flag then Inl InvalidStreamSortException else Inr state_dict)
              else Inr (state_dict\<lparr>bm_progress_markers := Some (rk, PInt v)\<rparr>))"
  using assms by (simp add: increment_state_def)

lemma flush_due_total:
  "STATE_MSG_FREQUENCY s \<noteq> 0 \<Longrightarrow> \<exists>due. flush_due s n = Inr due"
  by (cases "n = 0") (auto simp: flush_due_def)

lemma sync_row_sorted_ok:
  assumes "replication_method s = ''INCREMENTAL'' \<or> replication_method s = ''LOG_BASED''"
      and "replication_key s = Some rk"
      and "is_timestamp_replication_key E s = Inr False"
      and "schema E s = Inr sch"
      and "STATE_MSG_FREQUENCY s \<noteq> 0"
      and "case MAX_RECORDS_LIMIT s of None \<Rightarrow> True | Some limit \<Rightarrow> n < limit"
      and "map_of (pop_deselected_record_properties E (name s) row_dict) rk = Some (PInt v)"
      and "bm_progress_markers (deref (tap_state w) (state_ref_of (name s) part)) = None \<or>
           (\<exists>k j. bm_progress_markers (deref (tap_state w) (state_ref_of (name s) part))
                     = Some (k, PInt j) \<and> j \<le> v)"
  shows "\<exists>w'. sync_row E s part row_dict n w = (w', Inr (n + 1)) \<and>
              length (records_written (stdout w')) = length (records_written (stdout w)) + 1 \<and>
              logged w' = logged w \<and>
              bm_progress_markers (deref (tap_state w') (state_ref_of (name s) part))
                = Some (rk, PInt v)"
proof -
  let ?popped = "pop_deselected_record_properties E (name s) row_dict"
  let ?b = "deref (tap_state w) (state_ref_of (name s) part)"
  from flush_due_total [OF assms(5)] obtain due where due: "flush_due s n = Inr due" by blast
  have ne: "?popped \<noteq> []" using assms(7) by auto
  have sp: "None = (if False then Some (PTime (wall_clock E (Suc (clock_reads w)))) else None)"
    by simp
  have inc: "increment_state ?b rk None ?popped (is_sorted s)
               = Inr (?b\<lparr>bm_progress_markers := Some (rk, PInt v)\<rparr>)"
    using assms(8)
  proof
    assume "bm_progress_markers ?b = None"
    from increment_state_first [OF assms(7) this] show ?thesis .
  next
    assume "\<exists>k j. bm_progress_markers ?b = Some (k, PInt j) \<and> j \<le> v"
    then obtain k j where "bm_progress_markers ?b = Some (k, PInt j)" "j \<le> v" by blast
    with increment_state_int [OF assms(7), of ?b k j] show ?thesis by simp
  qed
  from sync_row_incremental [OF assms(1-4) due assms(6) refl ne sp refl, of part]
  show ?thesis
    unfolding inc by (auto simp: length_records_written_append)
qed

lemma sync_row_sorted_bad:
  assumes "replication_method s = ''INCREMENTAL'' \<or> replication_method s = ''LOG_BASED''"
      and "replication_key s = Some rk"
      and "is_timestamp_replication_key E s = Inr False"
      and "schema E s = Inr sch"
      and "STATE_MSG_FREQUENCY s \<noteq> 0"
      and "case MAX_RECORDS_LIMIT s of None \<Rightarrow> True | Some limit \<Rightarrow> n < limit"
      and "map_of (pop_deselected_record_properties E (name s) row_dict) rk = Some (PInt v)"
      and "bm_progress_markers (deref (tap_state w) (state_ref_of (name s) part))
             = Some (k, PInt j)"
      and "v < j"
      and "is_sorted s"
  shows "\<exists>w'. sync_row E s part row_dict n w = (w', Inl InvalidStreamSortException) \<and>
              length (records_written (stdout w')) = length (records_written (stdout w)) + 1 \<and>
              logged w' =
                logged w @ [Error_sorting (n + 1) (if truthy_opt part then part else None)
                              InvalidStreamSortException]"
proof -
  let ?popped = "pop_deselected_record_properties E (name s) row_dict"
  let ?b = "deref (tap_state w) (state_ref_of (name s) part)"
  from flush_due_total [OF assms(5)] obtain due where due: "flush_due s n = Inr due" by blast
  have ne: "?popped \<noteq> []" using assms(7) by auto
  have sp: "None = (if False then Some (PTime (wall_clock E (Suc (clock_reads w)))) else None)"
    by simp
  have inc: "increment_state ?b rk None ?popped (is_sorted s) = Inl InvalidStreamSortException"
    using increment_state_int [OF assms(7,8)] assms(9,10) by simp
  from sync_row_incremental [OF assms(1-4) due assms(6) refl ne sp refl, of part]
  show ?thesis
    unfolding inc by (auto simp: length_records_written_append)
qed

lemma sync_rows_three_sorted:
  assumes "is_sorted s"
      and "replication_method s = ''INCREMENTAL'' \<or> replication_method s = ''LOG_BASED''"
      and "replication_key s = Some rk"
      and "is_timestamp_replication_key E s = Inr False"
      and "schema E s = Inr sch"
      and "STATE_MSG_FREQUENCY s \<noteq> 0"
      and "case MAX_RECORDS_LIMIT s of None \<Rightarrow> True | Some limit \<Rightarrow> 3 \<le> limit"
      and "map_of (pop_deselected_record_properties E (name s) r1) rk = Some (PInt a)"
      and "map_of (pop_deselected_record_properties E (name s) r2) rk = Some (PInt b)"
      and "map_of (pop_deselected_record_properties E (name s) r3) rk = Some (PInt c)"
      and "bm_progress_markers (deref (tap_state w) (state_ref_of (name s) part)) = None"
      and "a \<le> b"
  shows "(b \<le> c \<longrightarrow>
            (\<exists>w'. sync_rows E s part [r1, r2, r3] 0 w = (w', Inr 3) \<and>
                  logged w' = logged w \<and>
                  bm_progress_markers (deref (tap_state w') (state_ref_of (name s) part))
                    = Some (rk, PInt c))) \<and>
         (c < b \<longrightarrow>
            (\<exists>w'. sync_rows E s part [r1, r2, r3] 0 w = (w', Inl InvalidStreamSortException) \<and>
                  logged w' =
                    logged w @ [Error_sorting 3 (if truthy_opt part then part else None)
                                  InvalidStreamSortException] \<and>
                  length (records_written (stdout w'))
                    = length (records_written (stdout w)) + 3))"
proof -
  let ?ref = "state_ref_of (name s) part"
  from assms(7) have cap0: "case MAX_RECORDS_LIMIT s of None \<Rightarrow> True | Some limit \<Rightarrow> 0 < limit"
    and cap1: "case MAX_RECORDS_LIMIT s of None \<Rightarrow> True | Some limit \<Rightarrow> 1 < limit"
    and cap2: "case MAX_RECORDS_LIMIT s of None \<Rightarrow> True | Some limit \<Rightarrow> 2 < limit"
    by (auto split: option.splits)
  from sync_row_sorted_ok [OF assms(2-6) cap0 assms(8), of w part] assms(11)
  obtain w1 where s1: "sync_row E s part r1 0 w = (w1, Inr 1)"
    and o1: "length (records_written (stdout w1)) = length (records_written (stdout w)) + 1"
    and l1: "logged w1 = logged w"
    and m1: "bm_progress_markers (deref (tap_state w1) ?ref) = Some (rk, PInt a)"
    by auto
  from sync_row_sorted_ok [OF assms(2-6) cap1 assms(9), of w1 part] m1 assms(12)
  obtain w2 where s2: "sync_row E s part r2 1 w1 = (w2, Inr 2)"
    and o2: "length (records_written (stdout w2)) = length (records_written (stdout w1)) + 1"
    and l2: "logged w2 = logged w1"
    and m2: "bm_progress_markers (deref (tap_state w2) ?ref) = Some (rk, PInt b)"
    by auto
  have ok: "\<exists>w'. sync_rows E s part [r1, r2, r3] 0 w = (w', Inr 3) \<and>
                  logged w' = logged w \<and>
                  bm_progress_markers (deref (tap_state w') ?ref) = Some (rk, PInt c)"
    if "b \<le> c"
  proof -
    from sync_row_sorted_ok [OF assms(2-6) cap2 assms(10), of w2 part] m2 that
    obtain w3 where s3: "sync_row E s part r3 2 w2 = (w3, Inr 3)"
      and l3: "logged w3 = logged w2"
      and m3: "bm_progress_markers (deref (tap_state w3) ?ref) = Some (rk, PInt c)"
      by auto
    have "sync_rows E s part [r1, r2, r3] 0 w = (w3, Inr 3)"
      using s1 s2 s3 by simp
    with l1 l2 l3 m3 show ?thesis by simp
  qed
  have bad: "\<exists>w'. sync_rows E s part [r1, r2, r3] 0 w = (w', Inl InvalidStreamSortException) \<and>
                  logged w' =
                    logged w @ [Error_sorting 3 (if truthy_opt part then part else None)
                                  InvalidStreamSortException] \<and>
                  length (records_written (stdout w'))
                    = length (records_written (stdout w)) + 3"
    if "c < b"
  proof -
    from sync_row_sorted_bad [OF assms(2-6) cap2 assms(10) m2 that assms(1)]
    obtain w3 where s3: "sync_row E s part r3 2 w2 = (w3, Inl InvalidStreamSortException)"
      and o3: "length (records_written (stdout w3)) = length (records_written (stdout w2)) + 1"
      and l3: "logged w3 =
                 logged w2 @ [Error_sorting 3 (if truthy_opt part then part else None)
                                InvalidStreamSortException]"
      by auto
    have "sync_rows E s part [r1, r2, r3] 0 w = (w3, Inl InvalidStreamSortException)"
      using s1 s2 s3 by simp
    with o1 o2 o3 l1 l2 l3 show ?thesis by simp
  qed
  from ok bad show ?thesis by blast
qed

text \<open>
  C6: a sorted incremental stream (integer replication key, so no signpost) whose three
  records carry the replication-key values 1, 2, 3 syncs to the end, and its bookmark ends
  at 3. With the values 1, 3, 2 the third record raises the ordering error: all three
  records have been written, the error is logged with the ordinal 3 and the partition
  context (when there is one), and it leaves \<open>_sync_records\<close> as its result.
\<close>

theorem sorted_stream_rejects_descent:
  assumes "is_sorted s"
      and "replication_method s = ''INCREMENTAL''"
      and "replication_key s = Some rk"
      and "is_timestamp_replication_key E s = Inr False"
      and "schema E s = Inr sch"
      and "STATE_MSG_FREQUENCY s \<noteq> 0"
      and "case MAX_RECORDS_LIMIT s of None \<Rightarrow> True | Some limit \<Rightarrow> 3 \<le> limit"
      and "partitions_to_sync s part w = [p]"
      and "map (\<lambda>row_dict. map_of (pop_deselected_record_properties E (name s) row_dict) rk)
             (get_records s p) = map (\<lambda>i. Some (PInt i)) ids"
  shows "(ids = [1, 2, 3] \<longrightarrow>
            snd (sync_records E s part w) = Inr () \<and>
            bm_replication_key_value
              (deref (tap_state (fst (sync_records E s part w))) (state_ref_of (name s) p))
              = Some (PInt 3)) \<and>
         (ids = [1, 3, 2] \<longrightarrow>
            snd (sync_records E s part w) = Inl InvalidStreamSortException \<and>
            logged (fst (sync_records E s part w)) =
              logged w @ [Error_sorting 3 (if truthy_opt p then p else None)
                            InvalidStreamSortException] \<and>
            length (records_written (stdout (fst (sync_records E s part w))))
              = length (records_written (stdout w)) + 3)"
proof -
  let ?ref = "state_ref_of (name s) p"
  let ?w1 = "w\<lparr>tap_state := ensure_entry (tap_state w) ?ref\<rparr>"
  let ?w2 = "?w1\<lparr>tap_state := assign (tap_state ?w1) ?ref
                         (reset_state_progress_markers (deref (tap_state ?w1) ?ref))\<rparr>"
  have m: "replication_method s = ''INCREMENTAL'' \<or> replication_method s = ''LOG_BASED''"
    using assms(2) by simp
  have mk: "bm_progress_markers (deref (tap_state ?w2) ?ref) = None"
    by (simp add: deref_assign reset_state_progress_markers_def)
  have obs: "logged ?w2 = logged w" "stdout ?w2 = stdout w" by simp_all
  have run: "sync_records E s part w =
               (case sync_rows E s p (get_records s p) 0 ?w2 of
                  (w3, Inl e) \<Rightarrow> (w3, Inl e)
                | (w3, Inr n) \<Rightarrow>
                    (write_state_message
                       ((w3\<lparr>tap_state := assign (tap_state w3) ?ref
                               (finalize_state_progress_markers (deref (tap_state w3) ?ref))\<rparr>)
                        \<lparr>logged := logged w3 @ [Info_completed (name s) n]\<rparr>), Inr ()))"
    by (simp add: sync_records_def assms(8) sync_partition_def get_stream_or_partition_state_eq
          Let_def split: prod.splits sum.splits)
  have first: "snd (sync_records E s part w) = Inr () \<and>
            bm_replication_key_value (deref (tap_state (fst (sync_records E s part w))) ?ref)
              = Some (PInt 3)"
    if ids: "ids = [1, 2, 3]"
  proof -
    from assms(9) ids obtain r1 r2 r3 where rows: "get_records s p = [r1, r2, r3]"
      and v: "map_of (pop_deselected_record_properties E (name s) r1) rk = Some (PInt 1)"
        "map_of (pop_deselected_record_properties E (name s) r2) rk = Some (PInt 2)"
        "map_of (pop_deselected_record_properties E (name s) r3) rk = Some (PInt 3)"
      by (auto simp: map_eq_Cons_conv)
    from sync_rows_three_sorted [OF assms(1) m assms(3-7) v mk]
    obtain w3 where r: "sync_rows E s p [r1, r2, r3] 0 ?w2 = (w3, Inr 3)"
      and m3: "bm_progress_markers (deref (tap_state w3) ?ref) = Some (rk, PInt 3)"
      by auto
    show ?thesis
      using r m3 unfolding run rows
      by (simp add: write_state_message_def deref_assign finalize_state_progress_markers_def)
  qed
  have second: "snd (sync_records E s part w) = Inl InvalidStreamSortException \<and>
            logged (fst (sync_records E s part w)) =
              logged w @ [Error_sorting 3 (if truthy_opt p then p else None)
                            InvalidStreamSortException] \<and>
            length (records_written (stdout (fst (sync_records E s part w))))
              = length (records_written (stdout w)) + 3"
    if ids: "ids = [1, 3, 2]"
  proof -
    from assms(9) ids obtain r1 r2 r3 where rows: "get_records s p = [r1, r2, r3]"
      and v: "map_of (pop_deselected_record_properties E (name s) r1) rk = Some (PInt 1)"
        "map_of (pop_deselected_record_properties E (name s) r2) rk = Some (PInt 3)"
        "map_of (pop_deselected_record_properties E (name s) r3) rk = Some (PInt 2)"
      by (auto simp: map_eq_Cons_conv)
    from sync_rows_three_sorted [OF assms(1) m assms(3-7) v mk] obs
    obtain w3 where r: "sync_rows E s p [r1, r2, r3] 0 ?w2 = (w3, Inl InvalidStreamSortException)"
      and l3: "logged w3 =
                 logged w @ [Error_sorting 3 (if truthy_opt p then p else None)
                               InvalidStreamSortException]"
      and o3: "length (records_written (stdout w3)) = length (records_written (stdout w)) + 3"
      by auto
    show ?thesis
      using r l3 o3 unfolding run rows by simp
  qed
  from first second show ?thesis by blast
qed

text \<open>The rows 1, 2, 3 of \<open>orders\<close>, and the rows 1, 3, 2 synced for the partition \<open>region_a\<close>.\<close>

theorem sorted_stream_rejects_descent_witness:
  "snd (sync_records demo_env demo_stream None demo_world) = Inr () \<and>
   bm_replication_key_value
     (deref (tap_state (fst (sync_records demo_env demo_stream None demo_world)))
        (Stream_entry ''orders'')) = Some (PInt 3) \<and>
   snd (sync_records demo_env out_of_order_stream (Some region_a) demo_world)
     = Inl InvalidStreamSortException \<and>
   logged (fst (sync_records demo_env out_of_order_stream (Some region_a) demo_world))
     = [Error_sorting 3 (Some region_a) InvalidStreamSortException]"
proof -
  have common:
    "is_sorted s" "replication_method s = ''INCREMENTAL''" "replication_key s = Some ''id''"
    "is_timestamp_replication_key demo_env s = Inr False"
    "schema demo_env s = Inr (the (priv_schema demo_stream))"
    "STATE_MSG_FREQUENCY s \<noteq> 0"
    "case MAX_RECORDS_LIMIT s of None \<Rightarrow> True | Some limit \<Rightarrow> 3 \<le> limit"
    if "s = demo_stream \<or> s = out_of_order_stream" for s
    using that
    by (auto simp: replication_method_def replication_key_def REPLICATION_INCREMENTAL_def
          is_timestamp_replication_key_def schema_def demo_env_def out_of_order_stream_def
          demo_stream_def)
  have p1: "partitions_to_sync demo_stream None demo_world = [None]"
    by (simp add: partitions_to_sync_def partitions_def get_state_partitions_list_def
          demo_world_def)
  have p2: "partitions_to_sync out_of_order_stream (Some region_a) demo_world = [Some region_a]"
    by (simp add: partitions_to_sync_def region_a_def)
  have v1: "map (\<lambda>row_dict. map_of (pop_deselected_record_properties demo_env (name demo_stream)
                                      row_dict) ''id'')
              (get_records demo_stream None) = map (\<lambda>i. Some (PInt i)) [1, 2, 3]"
    by (simp add: demo_env_def demo_stream_def)
  have v2: "map (\<lambda>row_dict. map_of (pop_deselected_record_properties demo_env
                                      (name out_of_order_stream) row_dict) ''id'')
              (get_records out_of_order_stream (Some region_a))
              = map (\<lambda>i. Some (PInt i)) [1, 3, 2]"
    by (simp add: demo_env_def out_of_order_stream_def rows_with_ids_def)
  have d: "demo_stream = demo_stream \<or> demo_stream = out_of_order_stream"
    and u: "out_of_order_stream = demo_stream \<or> out_of_order_stream = out_of_order_stream"
    by simp_all
  note T1 = sorted_stream_rejects_descent [OF common [OF d] p1 v1, THEN conjunct1, rule_format,
              OF refl]
  note T2 = sorted_stream_rejects_descent [OF common [OF u] p2 v2, THEN conjunct2, rule_format,
              OF refl]
  have r: "state_ref_of (name demo_stream) None = Stream_entry ''orders''"
    by (simp add: state_ref_of_def demo_stream_def)
  have t: "(if truthy_opt (Some region_a) then Some region_a else None) = Some region_a"
    "logged demo_world = []"
    by (simp_all add: region_a_def demo_world_def)
  from T1 T2 show ?thesis
    unfolding r t by simp
qed

end
